theory Spec2Isabelle
  imports Main "HOL-Library.AList"
begin

section \<open>JavaScript strings and objects\<close>

text \<open>
  Strings are byte strings. \<open>splitOn\<close> is \<open>String.prototype.split\<close> with a
  one-character separator: the empty string splits into one empty piece, and
  \<open>n\<close> separators always give \<open>n + 1\<close> pieces.
\<close>

fun splitOn :: "char \<Rightarrow> string \<Rightarrow> string list" where
  "splitOn c [] = [[]]"
| "splitOn c (x # xs) =
     (if x = c then [] # splitOn c xs
      else (case splitOn c xs of [] \<Rightarrow> [[x]] | p # ps \<Rightarrow> (x # p) # ps))"

text \<open>\<open>Array.prototype.join\<close> on an array of strings.\<close>

fun join_js :: "string \<Rightarrow> string list \<Rightarrow> string" where
  "join_js sep [] = []"
| "join_js sep [x] = x"
| "join_js sep (x # y # ys) = x @ sep @ join_js sep (y # ys)"

text \<open>
  A plain object with string-valued properties is an association list. Assignment
  \<open>obj[name] = v\<close> creates or replaces the own property \<open>name\<close>; the one exception on
  an object literal is the name \<open>__proto__\<close>, an accessor inherited from
  \<open>Object.prototype\<close> whose setter ignores a string. Reading a missing property gives
  \<open>undefined\<close>, which a template literal prints as the text \<open>undefined\<close>.
\<close>

type_synonym rawobj = "(string \<times> string) list"

definition setProp :: "rawobj \<Rightarrow> string \<Rightarrow> string \<Rightarrow> rawobj" where
  "setProp obj name v = (if name = ''__proto__'' then obj else AList.update name v obj)"

definition getProp :: "rawobj \<Rightarrow> string \<Rightarrow> string option" where
  "getProp obj name = map_of obj name"

definition showProp :: "rawobj \<Rightarrow> string \<Rightarrow> string" where
  "showProp obj name = (case getProp obj name of None \<Rightarrow> ''undefined'' | Some v \<Rightarrow> v)"

section \<open>JavaScript values and \<open>JSON.parse\<close>\<close>

text \<open>
  The values that the DynamoDB document client and \<open>JSON.parse\<close> hand to the code.
  A number \<open>JNum m e\<close> is the decimal \<open>m * 10^e\<close> as written; JavaScript rounds it
  to the nearest double, and the only property of a number that the code looks at is
  whether that double is zero: it is when the decimal is at most \<open>2^-1075\<close> in absolute
  value. An object is an association list of its own properties.
  \<open>truthy\<close> is the conversion \<open>!!v\<close>.
\<close>

datatype jsval =
    JNull
  | JBool bool
  | JNum int int
  | JStr string
  | JArr "jsval list"
  | JObj "(string \<times> jsval) list"

fun truthy :: "jsval \<Rightarrow> bool" where
  "truthy JNull = False"
| "truthy (JBool b) = b"
| "truthy (JNum m e) = (if 0 \<le> e then m \<noteq> 0 else 10 ^ nat (- e) < \<bar>m\<bar> * 2 ^ 1075)"
| "truthy (JStr s) = (s \<noteq> [])"
| "truthy (JArr xs) = True"
| "truthy (JObj ps) = True"

text \<open>
  \<open>JSON.parse\<close> as a tokenizer followed by a stack automaton for the JSON grammar
  (ECMA-404): one pass over the characters, then one pass over the tokens. A scalar
  that is not a string (a number, \<open>true\<close>, \<open>false\<close>, \<open>null\<close>) is read as a maximal
  run of word characters and then classified. A \<open>\u\<close> escape above 0x7F is stored as
  the UTF-8 bytes of its code unit. The result \<open>None\<close> is the \<open>SyntaxError\<close>.
\<close>

datatype tok = TLBrace | TRBrace | TLBrack | TRBrack | TColon | TComma | TVal jsval

definition isDigit :: "char \<Rightarrow> bool" where
  "isDigit c = (48 \<le> (of_char c :: nat) \<and> (of_char c :: nat) \<le> 57)"

definition digitsVal :: "string \<Rightarrow> nat" where
  "digitsVal ds = foldl (\<lambda>a c. 10 * a + (of_char c - 48)) 0 ds"

definition hexVal :: "char \<Rightarrow> nat option" where
  "hexVal c =
     (let n = (of_char c :: nat) in
      if 48 \<le> n \<and> n \<le> 57 then Some (n - 48)
      else if 65 \<le> n \<and> n \<le> 70 then Some (n - 55)
      else if 97 \<le> n \<and> n \<le> 102 then Some (n - 87)
      else None)"

definition utf8 :: "nat \<Rightarrow> string" where
  "utf8 n =
     (if n < 128 then [char_of n]
      else if n < 2048 then [char_of (192 + n div 64), char_of (128 + n mod 64)]
      else [char_of (224 + n div 4096), char_of (128 + (n div 64) mod 64), char_of (128 + n mod 64)])"

definition parseExponent :: "string \<Rightarrow> int option" where
  "parseExponent r =
     (case r of
        [] \<Rightarrow> Some 0
      | c # r1 \<Rightarrow>
          if c = CHR ''e'' \<or> c = CHR ''E'' then
            (let neg = (r1 \<noteq> [] \<and> hd r1 = CHR ''-'');
                 ds = (if r1 \<noteq> [] \<and> (hd r1 = CHR ''-'' \<or> hd r1 = CHR ''+'') then tl r1 else r1)
             in if ds \<noteq> [] \<and> list_all isDigit ds
                then Some (if neg then - int (digitsVal ds) else int (digitsVal ds))
                else None)
          else None)"

definition parseNumber :: "string \<Rightarrow> jsval option" where
  "parseNumber s =
     (let neg = (s \<noteq> [] \<and> hd s = CHR ''-'');
          s1 = (if neg then tl s else s);
          ip = takeWhile isDigit s1;
          r1 = dropWhile isDigit s1;
          hasFrac = (r1 \<noteq> [] \<and> hd r1 = CHR ''.'');
          fp = (if hasFrac then takeWhile isDigit (tl r1) else []);
          r2 = (if hasFrac then dropWhile isDigit (tl r1) else r1)
      in if ip = [] \<or> (hd ip = CHR ''0'' \<and> length ip \<noteq> 1) \<or> (hasFrac \<and> fp = []) then None
         else (case parseExponent r2 of
                 None \<Rightarrow> None
               | Some ex \<Rightarrow>
                   Some (JNum (if neg then - int (digitsVal (ip @ fp)) else int (digitsVal (ip @ fp)))
                              (ex - int (length fp)))))"

definition classifyWord :: "string \<Rightarrow> jsval option" where
  "classifyWord w =
     (if w = ''null'' then Some JNull
      else if w = ''true'' then Some (JBool True)
      else if w = ''false'' then Some (JBool False)
      else parseNumber w)"

datatype lexmode = LStart | LStr string | LEsc string | LUni string "nat list" | LWord string

definition isWordChar :: "char \<Rightarrow> bool" where
  "isWordChar c =
     (let n = (of_char c :: nat) in
      (48 \<le> n \<and> n \<le> 57) \<or> (65 \<le> n \<and> n \<le> 90) \<or> (97 \<le> n \<and> n \<le> 122)
      \<or> c = CHR ''-'' \<or> c = CHR ''+'' \<or> c = CHR ''.'')"

definition isJsonSpace :: "char \<Rightarrow> bool" where
  "isJsonSpace c = ((of_char c :: nat) \<in> {9, 10, 13, 32})"

definition lexStart :: "tok list \<Rightarrow> char \<Rightarrow> (lexmode \<times> tok list) option" where
  "lexStart ts c =
     (if isJsonSpace c then Some (LStart, ts)
      else if c = CHR ''{'' then Some (LStart, ts @ [TLBrace])
      else if c = CHR ''}'' then Some (LStart, ts @ [TRBrace])
      else if c = CHR ''['' then Some (LStart, ts @ [TLBrack])
      else if c = CHR '']'' then Some (LStart, ts @ [TRBrack])
      else if c = CHR '':'' then Some (LStart, ts @ [TColon])
      else if c = CHR '','' then Some (LStart, ts @ [TComma])
      else if c = CHR 0x22 then Some (LStr [], ts)
      else if isWordChar c then Some (LWord [c], ts)
      else None)"

fun lexStep :: "(lexmode \<times> tok list) \<Rightarrow> char \<Rightarrow> (lexmode \<times> tok list) option" where
  "lexStep (LStart, ts) c = lexStart ts c"
| "lexStep (LWord w, ts) c =
     (if isWordChar c then Some (LWord (w @ [c]), ts)
      else (case classifyWord w of
              None \<Rightarrow> None
            | Some v \<Rightarrow> lexStart (ts @ [TVal v]) c))"
| "lexStep (LStr acc, ts) c =
     (if c = CHR 0x22 then Some (LStart, ts @ [TVal (JStr acc)])
      else if c = CHR 0x5C then Some (LEsc acc, ts)
      else if (of_char c :: nat) < 32 then None
      else Some (LStr (acc @ [c]), ts))"
| "lexStep (LEsc acc, ts) c =
     (if c = CHR 0x22 \<or> c = CHR 0x5C \<or> c = CHR ''/'' then Some (LStr (acc @ [c]), ts)
      else if c = CHR ''b'' then Some (LStr (acc @ [CHR 0x08]), ts)
      else if c = CHR ''f'' then Some (LStr (acc @ [CHR 0x0C]), ts)
      else if c = CHR ''n'' then Some (LStr (acc @ [CHR 0x0A]), ts)
      else if c = CHR ''r'' then Some (LStr (acc @ [CHR 0x0D]), ts)
      else if c = CHR ''t'' then Some (LStr (acc @ [CHR 0x09]), ts)
      else if c = CHR ''u'' then Some (LUni acc [], ts)
      else None)"
| "lexStep (LUni acc hs, ts) c =
     (case hexVal c of
        None \<Rightarrow> None
      | Some h \<Rightarrow>
          if length hs = 3 then Some (LStr (acc @ utf8 (foldl (\<lambda>a d. 16 * a + d) 0 (hs @ [h]))), ts)
          else Some (LUni acc (hs @ [h]), ts))"

fun lexLoop :: "(lexmode \<times> tok list) \<Rightarrow> string \<Rightarrow> (lexmode \<times> tok list) option" where
  "lexLoop st [] = Some st"
| "lexLoop st (c # cs) = (case lexStep st c of None \<Rightarrow> None | Some st' \<Rightarrow> lexLoop st' cs)"

definition lexJson :: "string \<Rightarrow> tok list option" where
  "lexJson s =
     (case lexLoop (LStart, []) s of
        Some (LStart, ts) \<Rightarrow> Some ts
      | Some (LWord w, ts) \<Rightarrow> (case classifyWord w of None \<Rightarrow> None | Some v \<Rightarrow> Some (ts @ [TVal v]))
      | _ \<Rightarrow> None)"

datatype frame = FArr "jsval list" | FObj "(string \<times> jsval) list" string

datatype pstate = PValue | PArrFirst | PObjFirst | PObjKey | PColon | PAfter | PDone jsval

fun complete :: "frame list \<Rightarrow> jsval \<Rightarrow> frame list \<times> pstate" where
  "complete [] v = ([], PDone v)"
| "complete (FArr es # st) v = (FArr (es @ [v]) # st, PAfter)"
| "complete (FObj ps k # st) v = (FObj (AList.update k v ps) k # st, PAfter)"

fun parseValue :: "frame list \<Rightarrow> tok \<Rightarrow> (frame list \<times> pstate) option" where
  "parseValue st (TVal v) = Some (complete st v)"
| "parseValue st TLBrack = Some (FArr [] # st, PArrFirst)"
| "parseValue st TLBrace = Some (FObj [] [] # st, PObjFirst)"
| "parseValue st t = None"

fun parseKey :: "frame list \<Rightarrow> tok \<Rightarrow> (frame list \<times> pstate) option" where
  "parseKey (FObj ps k # st) (TVal (JStr k')) = Some (FObj ps k' # st, PColon)"
| "parseKey st t = None"

fun parseStep :: "(frame list \<times> pstate) \<Rightarrow> tok \<Rightarrow> (frame list \<times> pstate) option" where
  "parseStep (st, PValue) t = parseValue st t"
| "parseStep (FArr es # st, PArrFirst) TRBrack = Some (complete st (JArr es))"
| "parseStep (st, PArrFirst) t = parseValue st t"
| "parseStep (FObj ps k # st, PObjFirst) TRBrace = Some (complete st (JObj ps))"
| "parseStep (st, PObjFirst) t = parseKey st t"
| "parseStep (st, PObjKey) t = parseKey st t"
| "parseStep (st, PColon) TColon = Some (st, PValue)"
| "parseStep (st, PColon) t = None"
| "parseStep (FArr es # st, PAfter) TComma = Some (FArr es # st, PValue)"
| "parseStep (FArr es # st, PAfter) TRBrack = Some (complete st (JArr es))"
| "parseStep (FObj ps k # st, PAfter) TComma = Some (FObj ps k # st, PObjKey)"
| "parseStep (FObj ps k # st, PAfter) TRBrace = Some (complete st (JObj ps))"
| "parseStep (st, PAfter) t = None"
| "parseStep (st, PDone v) t = None"

fun parseLoop :: "(frame list \<times> pstate) \<Rightarrow> tok list \<Rightarrow> (frame list \<times> pstate) option" where
  "parseLoop st [] = Some st"
| "parseLoop st (t # ts) = (case parseStep st t of None \<Rightarrow> None | Some st' \<Rightarrow> parseLoop st' ts)"

definition JSON_parse :: "string \<Rightarrow> jsval option" where
  "JSON_parse s =
     (case lexJson s of
        None \<Rightarrow> None
      | Some ts \<Rightarrow> (case parseLoop ([], PValue) ts of Some ([], PDone v) \<Rightarrow> Some v | _ \<Rightarrow> None))"

section \<open>Payload preparation (packages/trip-reduction-function)\<close>

subsection \<open>Partition key extraction\<close>

definition rawStateMachineInput0 :: rawobj where
  "rawStateMachineInput0 =
     [(''year'', ''''), (''month'', ''''), (''day'', ''''), (''hour'', ''''), (''minute'', '''')]"

text \<open>The body of the \<open>forEach\<close> callback, for one segment of the key.\<close>

definition keyParam :: "rawobj \<Rightarrow> string \<Rightarrow> rawobj" where
  "keyParam raw param =
     (let paramParams = splitOn CHR ''='' param in
      if length paramParams < 2 then raw
      else setProp raw (paramParams ! 0) (paramParams ! 1))"

definition extractPartition :: "string \<Rightarrow> rawobj" where
  "extractPartition objectKey = foldl keyParam rawStateMachineInput0 (splitOn CHR ''/'' objectKey)"

subsection \<open>Query template engine\<close>

abbreviation sq :: string where "sq \<equiv> [CHR 0x27]"
abbreviation dq :: string where "dq \<equiv> [CHR 0x22]"
abbreviation nl :: string where "nl \<equiv> [CHR 0x0A]"

text \<open>
  The two template literals of the handler, character for character; \<open>T\<close> is the
  environment variable \<open>ATHENA_TABLE_NAME\<close>. The placeholder \<open>{}\<close> is filled in later by
  the state machine.
\<close>

definition FinishedTripsSummaryQueryTemplate :: "string \<Rightarrow> string" where
  "FinishedTripsSummaryQueryTemplate T =
      ''SELECT '' @ nl @
      ''      a.deviceid as vehicle_id,'' @ nl @
      ''      a.tripid as trip_id,'' @ nl @
      ''      b.eventdate as start_date,'' @ nl @
      ''      a.eventdate as end_date,'' @ nl @
      ''      date_diff('' @ sq @ ''second'' @ sq @ '', from_iso8601_timestamp(b.eventdate), from_iso8601_timestamp(a.eventdate)) as duration,'' @ nl @
      ''      (select count(1) from '' @ dq @ T @ dq @ '' c where a.tripid = c.tripid) as event_count'' @ nl @
      ''    FROM '' @ dq @ T @ dq @ '' a'' @ nl @
      ''    LEFT JOIN '' @ dq @ T @ dq @ '' b'' @ nl @
      ''      on a.tripid = b.tripid and b.eventtype = '' @ sq @ ''engine-start'' @ sq @ nl @
      ''    where '' @ nl @
      ''      a.eventtype = '' @ sq @ ''trip-finished'' @ sq @ nl @
      ''      and {};''"

definition ReducedTripsQueryTemplate :: "string \<Rightarrow> string" where
  "ReducedTripsQueryTemplate T =
      ''SELECT *'' @ nl @
      ''      FROM '' @ dq @ T @ dq @ '' a'' @ nl @
      ''      where tripid in (SELECT tripid '' @ nl @
      ''          FROM '' @ dq @ T @ dq @ '' a'' @ nl @
      ''          where a.eventtype = '' @ sq @ ''trip-finished'' @ sq @ '' '' @ nl @
      ''              and {})'' @ nl @
      ''      order by tripid, eventdate;''"

definition filterExpression :: "rawobj \<Rightarrow> string" where
  "filterExpression raw =
     join_js '' and ''
       [''a.year = '' @ sq @ showProp raw ''year'' @ sq,
        ''a.month = '' @ sq @ showProp raw ''month'' @ sq,
        ''a.day = '' @ sq @ showProp raw ''day'' @ sq,
        ''a.hour = '' @ sq @ showProp raw ''hour'' @ sq,
        ''a.minute = '' @ sq @ showProp raw ''minute'' @ sq]"

definition formattedDate :: "rawobj \<Rightarrow> string" where
  "formattedDate raw =
     join_js ''-''
       [showProp raw ''year'', showProp raw ''month'', showProp raw ''day'',
        showProp raw ''hour'', showProp raw ''minute'']"

record StateMachineInput =
  FinishedTripsSummaryQuery :: string
  ReducedTripsQuery :: string
  QueryFilterExpression :: string
  FormattedDate :: string

text \<open>The handler: \<open>T\<close> is \<open>ATHENA_TABLE_NAME\<close>, \<open>objectKey\<close> is \<open>event.detail.requestParameters.key\<close>.\<close>

definition tripReduction_handler :: "string \<Rightarrow> string \<Rightarrow> StateMachineInput" where
  "tripReduction_handler T objectKey =
     (let rawStateMachineInput = extractPartition objectKey in
      \<lparr> FinishedTripsSummaryQuery = FinishedTripsSummaryQueryTemplate T,
        ReducedTripsQuery = ReducedTripsQueryTemplate T,
        QueryFilterExpression = filterExpression rawStateMachineInput,
        FormattedDate = formattedDate rawStateMachineInput \<rparr>)"

subsection \<open>Rendering in the state machine (lib/data-reduction.ts)\<close>

text \<open>
  The two Athena tasks take their query string from
  \<open>States.Format($.FinishedTripsSummaryQuery, $.QueryFilterExpression)\<close> and
  \<open>States.Format($.ReducedTripsQuery, $.QueryFilterExpression)\<close>.
  \<open>States.Format\<close> is an intrinsic function of the workflow service: it replaces each
  \<open>{}\<close> of its first argument by the next remaining argument, there must be as many
  arguments as placeholders, and a backslash escapes the character after it. A brace
  that is neither escaped nor part of \<open>{}\<close> is refused here.
\<close>

fun States_Format :: "string \<Rightarrow> string list \<Rightarrow> string option" where
  "States_Format [] args = (if args = [] then Some [] else None)"
| "States_Format (c # cs) args =
     (if c = CHR 0x5C then
        (case cs of [] \<Rightarrow> None | d # ds \<Rightarrow> map_option ((#) d) (States_Format ds args))
      else if c = CHR ''{'' then
        (case cs of
           [] \<Rightarrow> None
         | d # ds \<Rightarrow>
             if d = CHR ''}'' then
               (case args of [] \<Rightarrow> None | a # as \<Rightarrow> map_option ((@) a) (States_Format ds as))
             else None)
      else if c = CHR ''}'' then None
      else map_option ((#) c) (States_Format cs args))"

definition findFinishedTripsTask_queryString :: "StateMachineInput \<Rightarrow> string option" where
  "findFinishedTripsTask_queryString inp =
     States_Format (FinishedTripsSummaryQuery inp) [QueryFilterExpression inp]"

definition createTripsFileTask_queryString :: "StateMachineInput \<Rightarrow> string option" where
  "createTripsFileTask_queryString inp =
     States_Format (ReducedTripsQuery inp) [QueryFilterExpression inp]"

section \<open>What the trip summary query computes\<close>

text \<open>
  The rendered query is run by the query engine over the table of raw events. Its
  relational reading is written out here: \<open>a\<close> ranges over the rows of the table that
  satisfy the \<open>where\<close> clause, \<open>b\<close> over the rows joined to \<open>a\<close>, and the scalar subquery
  counts over \<open>c\<close>. Data columns are nullable; the partition columns are strings. A
  comparison with a null is not true. \<open>ts\<close> stands for the engine's
  \<open>from_iso8601_timestamp\<close> (epoch milliseconds of a timestamp text the engine can
  read), and \<open>flt\<close> for the filter expression that replaced \<open>{}\<close>.
\<close>

record event_row =
  eventid :: "string option"
  tripid :: "string option"
  deviceid :: "string option"
  eventdate :: "string option"
  eventtype :: "string option"
  randomdata :: "string option"
  year :: string
  month :: string
  day :: string
  hour :: string
  minute :: string

record summary_row =
  vehicle_id :: "string option"
  trip_id :: "string option"
  start_date :: "string option"
  end_date :: "string option"
  duration :: "int option"
  event_count :: nat

definition sql_eq :: "string option \<Rightarrow> string option \<Rightarrow> bool" where
  "sql_eq x y = (x \<noteq> None \<and> x = y)"

text \<open>\<open>date_diff('second', t1, t2)\<close>: the whole seconds from \<open>t1\<close> to \<open>t2\<close>, cut towards zero.\<close>

definition date_diff_second :: "int \<Rightarrow> int \<Rightarrow> int" where
  "date_diff_second t1 t2 = sgn (t2 - t1) * (\<bar>t2 - t1\<bar> div 1000)"

definition engineStarts :: "event_row list \<Rightarrow> event_row \<Rightarrow> event_row list" where
  "engineStarts tbl a =
     filter (\<lambda>b. sql_eq (tripid a) (tripid b) \<and> eventtype b = Some ''engine-start'') tbl"

definition eventCount :: "event_row list \<Rightarrow> event_row \<Rightarrow> nat" where
  "eventCount tbl a = length (filter (\<lambda>c. sql_eq (tripid a) (tripid c)) tbl)"

definition summaryRow :: "(string \<Rightarrow> int) \<Rightarrow> event_row list \<Rightarrow> event_row \<Rightarrow> string option \<Rightarrow> summary_row" where
  "summaryRow ts tbl a b_eventdate =
     \<lparr> vehicle_id = deviceid a,
       trip_id = tripid a,
       start_date = b_eventdate,
       end_date = eventdate a,
       duration =
         (case (b_eventdate, eventdate a) of
            (Some sb, Some sa) \<Rightarrow> Some (date_diff_second (ts sb) (ts sa))
          | _ \<Rightarrow> None),
       event_count = eventCount tbl a \<rparr>"

text \<open>The left join: one output row per joined \<open>b\<close>, and one with nulls for \<open>b\<close> when none joins.\<close>

definition summaryRowsOf :: "(string \<Rightarrow> int) \<Rightarrow> event_row list \<Rightarrow> event_row \<Rightarrow> summary_row list" where
  "summaryRowsOf ts tbl a =
     (if engineStarts tbl a = [] then [summaryRow ts tbl a None]
      else map (\<lambda>b. summaryRow ts tbl a (eventdate b)) (engineStarts tbl a))"

definition finishedTripsSummary ::
    "(string \<Rightarrow> int) \<Rightarrow> (event_row \<Rightarrow> bool) \<Rightarrow> event_row list \<Rightarrow> summary_row list" where
  "finishedTripsSummary ts flt tbl =
     concat (map (summaryRowsOf ts tbl)
                 (filter (\<lambda>a. eventtype a = Some ''trip-finished'' \<and> flt a) tbl))"

text \<open>The filter expression of the handler, read as a predicate on a row \<open>a\<close>.\<close>

definition partitionFilter :: "rawobj \<Rightarrow> event_row \<Rightarrow> bool" where
  "partitionFilter raw a =
     (year a = showProp raw ''year'' \<and> month a = showProp raw ''month'' \<and>
      day a = showProp raw ''day'' \<and> hour a = showProp raw ''hour'' \<and>
      minute a = showProp raw ''minute'')"

section \<open>The Summary Store and the Object Store\<close>

datatype error =
    TypeError | SyntaxError | ParamValidation | ValidationException | NoSuchKey | ServiceFailure

type_synonym item = "(string \<times> jsval) list"

datatype call =
    DdbGet item
  | DdbUpdate item string jsval
  | DdbBatchWrite "item list"
  | S3GetObject string string
  | S3PutObject string string string
  | S3SelectObjectContent string string string

datatype select_event = RecordsEvent string | StatsEvent | ProgressEvent | ContEvent | EndEvent

text \<open>
  The state the two Lambda functions share: the rows of the trip summaries table, by
  the value of their partition key, and the objects of the buckets, by bucket and key.
\<close>

record store =
  summaries :: "string \<rightharpoonup> item"
  objects :: "string \<times> string \<rightharpoonup> string"

text \<open>
  What the functions get from their surroundings: environment variables, the outcome of
  calls that the model does not compute (\<open>fault\<close> says which calls the service fails and
  how; \<open>selectResult\<close> is the event stream that a selective scan delivers), and the
  library functions \<open>JSON.stringify\<close> and csv-parse.
\<close>

record services =
  TRIP_RECORDS_BUCKET_NAME :: string
  fault :: "call \<Rightarrow> error option"
  selectResult :: "string \<Rightarrow> string \<Rightarrow> string \<Rightarrow> select_event list"
  JSON_stringify :: "jsval \<Rightarrow> string"
  csv_parse :: "string \<Rightarrow> error + (string \<times> string) list list"

text \<open>The partition key of \<open>tripSummaryTable\<close> in lib/data-reduction.ts.\<close>

definition tripSummaryTable_partitionKey :: string where
  "tripSummaryTable_partitionKey = ''trip_id''"

text \<open>
  The two stores are services outside the repository; the functions reach them
  through the SDK clients. The operations below give them the behaviour the code
  relies on: \<open>get\<close> returns the item stored under a key, if any; a batch write puts
  every item of the batch, each replacing the whole row of its key; \<open>update\<close> sets
  one attribute of a row, creating the row when there is none; an object \<open>put\<close>
  replaces the object of its bucket and key. As the table service does, a request is
  refused with a validation error when its \<open>Key\<close> is not exactly the table's partition
  key with a non-empty string, when a batch is empty, longer than 25, or names a key
  twice, or when an item lacks the partition key. Any call may also fail for reasons
  of its own (\<open>fault\<close>), and then has no effect.
\<close>

definition keyOf :: "item \<Rightarrow> string option" where
  "keyOf k =
     (case k of
        [(n, JStr v)] \<Rightarrow> if n = tripSummaryTable_partitionKey \<and> v \<noteq> [] then Some v else None
      | _ \<Rightarrow> None)"

definition itemKey :: "item \<Rightarrow> string option" where
  "itemKey i =
     (case map_of i tripSummaryTable_partitionKey of
        Some (JStr v) \<Rightarrow> if v \<noteq> [] then Some v else None
      | _ \<Rightarrow> None)"

definition dynamodb_get :: "services \<Rightarrow> store \<Rightarrow> item \<Rightarrow> error + item option" where
  "dynamodb_get svc st k =
     (case fault svc (DdbGet k) of
        Some e \<Rightarrow> Inl e
      | None \<Rightarrow> (case keyOf k of None \<Rightarrow> Inl ValidationException | Some v \<Rightarrow> Inr (summaries st v)))"

definition dynamodb_update :: "services \<Rightarrow> store \<Rightarrow> item \<Rightarrow> string \<Rightarrow> jsval \<Rightarrow> error + store" where
  "dynamodb_update svc st k attr v =
     (case fault svc (DdbUpdate k attr v) of
        Some e \<Rightarrow> Inl e
      | None \<Rightarrow>
          (case keyOf k of
             None \<Rightarrow> Inl ValidationException
           | Some kv \<Rightarrow>
               if attr = tripSummaryTable_partitionKey then Inl ValidationException
               else Inr (st\<lparr>summaries := (summaries st)
                      (kv \<mapsto> AList.update attr v (case summaries st kv of None \<Rightarrow> k | Some i \<Rightarrow> i))\<rparr>)))"

definition putItem :: "(string \<rightharpoonup> item) \<Rightarrow> item \<Rightarrow> (string \<rightharpoonup> item)" where
  "putItem m i = (case itemKey i of None \<Rightarrow> m | Some kv \<Rightarrow> m(kv \<mapsto> i))"

definition dynamodb_batchWrite :: "services \<Rightarrow> store \<Rightarrow> item list \<Rightarrow> error + store" where
  "dynamodb_batchWrite svc st items =
     (case fault svc (DdbBatchWrite items) of
        Some e \<Rightarrow> Inl e
      | None \<Rightarrow>
          if items = [] \<or> 25 < length items \<or> None \<in> set (map itemKey items)
             \<or> \<not> distinct (map itemKey items)
          then Inl ValidationException
          else Inr (st\<lparr>summaries := foldl putItem (summaries st) items\<rparr>))"

definition s3_getObject :: "services \<Rightarrow> store \<Rightarrow> string \<Rightarrow> string \<Rightarrow> error + string" where
  "s3_getObject svc st b k =
     (case fault svc (S3GetObject b k) of
        Some e \<Rightarrow> Inl e
      | None \<Rightarrow> (case objects st (b, k) of None \<Rightarrow> Inl NoSuchKey | Some body \<Rightarrow> Inr body))"

definition s3_putObject :: "services \<Rightarrow> store \<Rightarrow> string \<Rightarrow> string \<Rightarrow> string \<Rightarrow> error + store" where
  "s3_putObject svc st b k body =
     (case fault svc (S3PutObject b k body) of
        Some e \<Rightarrow> Inl e
      | None \<Rightarrow> Inr (st\<lparr>objects := (objects st)((b, k) \<mapsto> body)\<rparr>))"

definition s3_selectObjectContent ::
    "services \<Rightarrow> string \<Rightarrow> string \<Rightarrow> string \<Rightarrow> error + select_event list" where
  "s3_selectObjectContent svc b k expr =
     (case fault svc (S3SelectObjectContent b k expr) of
        Some e \<Rightarrow> Inl e
      | None \<Rightarrow> Inr (selectResult svc b k expr))"

section \<open>Summary Writer (packages/create-trip-summaries)\<close>

text \<open>\<open>Array.prototype.slice\<close> with bounds \<open>0 \<le> a\<close> and \<open>0 \<le> b\<close>.\<close>

definition slice :: "nat \<Rightarrow> nat \<Rightarrow> 'a list \<Rightarrow> 'a list" where
  "slice a b xs = take (b - a) (drop a xs)"

text \<open>The loop \<open>for (let i = 0; i < tripsSummary.length; i += 25)\<close>.\<close>

function chunkLoop :: "nat \<Rightarrow> 'a list \<Rightarrow> 'a list list \<Rightarrow> 'a list list" where
  "chunkLoop i tripsSummary tripSummaryChunks =
     (if i < length tripsSummary
      then chunkLoop (i + 25) tripsSummary
             (tripSummaryChunks @ [slice i (min (i + 25) (length tripsSummary)) tripsSummary])
      else tripSummaryChunks)"
  by pat_completeness auto
termination
  by (relation "measure (\<lambda>(i, xs, acc). length xs - i)") auto

declare chunkLoop.simps [simp del]

text \<open>
  \<open>Promise.all\<close> over the chunks: every request is issued, in the order of the chunks;
  the promise is rejected with the error of a failed request, if there is one. The
  requests are taken to complete in the order they were issued.
\<close>

fun writeChunks :: "services \<Rightarrow> store \<Rightarrow> item list list \<Rightarrow> (error + unit) \<times> store \<times> call list" where
  "writeChunks svc st [] = (Inr (), st, [])"
| "writeChunks svc st (chunk # chunks) =
     (case dynamodb_batchWrite svc st chunk of
        Inl e \<Rightarrow>
          (case writeChunks svc st chunks of (r, st', tr) \<Rightarrow> (Inl e, st', DdbBatchWrite chunk # tr))
      | Inr st1 \<Rightarrow>
          (case writeChunks svc st1 chunks of (r, st', tr) \<Rightarrow> (r, st', DdbBatchWrite chunk # tr)))"

text \<open>Lines 84 to 106 of the handler: chunk the parsed rows and write each chunk.\<close>

definition storeTripSummaries :: "services \<Rightarrow> store \<Rightarrow> item list \<Rightarrow> (error + unit) \<times> store \<times> call list" where
  "storeTripSummaries svc st tripsSummary = writeChunks svc st (chunkLoop 0 tripsSummary [])"

text \<open>
  A result location \<open>s3://bucket/key\<close> becomes \<open>{Bucket, Key}\<close> from its last two
  \<open>/\<close>-separated pieces; \<open>Bucket\<close> is undefined (absent) when there is only one.
\<close>

definition resultFile :: "string \<Rightarrow> item" where
  "resultFile loc =
     (let result = take 2 (rev (splitOn CHR ''/'' loc)) in
      (case result of
         [k] \<Rightarrow> [(''Key'', JStr k)]
       | k # b # _ \<Rightarrow> [(''Bucket'', JStr b), (''Key'', JStr k)]
       | [] \<Rightarrow> []))"

text \<open>A parsed row, with the reference to the records file added.\<close>

definition summaryItem :: "item option \<Rightarrow> (string \<times> string) list \<Rightarrow> item" where
  "summaryItem tripFile row =
     (let trip = map (\<lambda>(c, v). (c, JStr v)) row in
      case tripFile of None \<Rightarrow> trip | Some f \<Rightarrow> AList.update ''RecordsFile'' (JObj f) trip)"

text \<open>The handler; \<open>locs\<close> are the output locations of \<open>event.QueryResults\<close>.\<close>

definition createTripSummaries_handler ::
    "services \<Rightarrow> string list \<Rightarrow> store \<Rightarrow> (error + unit) \<times> store \<times> call list" where
  "createTripSummaries_handler svc locs st =
     (let queryResultFiles = map resultFile locs;
          tripFile = (if 1 < length queryResultFiles then Some (queryResultFiles ! 1) else None);
          summaryFile = (if queryResultFiles = [] then [] else queryResultFiles ! 0)
      in case (map_of summaryFile ''Bucket'', map_of summaryFile ''Key'') of
           (Some (JStr bucket), Some (JStr key)) \<Rightarrow>
             (case s3_getObject svc st bucket key of
                Inl e \<Rightarrow> (Inl e, st, [S3GetObject bucket key])
              | Inr tripSummaryFile \<Rightarrow>
                  (case csv_parse svc tripSummaryFile of
                     Inl e \<Rightarrow> (Inl e, st, [S3GetObject bucket key])
                   | Inr rows \<Rightarrow>
                       (case storeTripSummaries svc st (map (summaryItem tripFile) rows) of
                          (r, st', tr) \<Rightarrow> (r, st', S3GetObject bucket key # tr))))
         | _ \<Rightarrow> (Inl ParamValidation, st, []))"

section \<open>Trip Aggregation Cache (packages/trips-api-backend)\<close>

text \<open>One \<open>Records\<close> event of the stream: split into lines, drop empty ones, parse, drop falsy results.\<close>

definition parsedRecords :: "string \<Rightarrow> jsval list" where
  "parsedRecords parsedRecordsString =
     filter truthy
       (map (\<lambda>r. case JSON_parse r of Some v \<Rightarrow> v | None \<Rightarrow> JNull)
            (filter (\<lambda>r. r \<noteq> []) (splitOn CHR 0x0A parsedRecordsString)))"

text \<open>The \<open>for await\<close> loop over the stream, with \<open>tripRecords\<close> as accumulator.\<close>

fun collectRecords :: "jsval list \<Rightarrow> select_event list \<Rightarrow> jsval list" where
  "collectRecords tripRecords [] = tripRecords"
| "collectRecords tripRecords (RecordsEvent payload # evs) =
     collectRecords (tripRecords @ parsedRecords payload) evs"
| "collectRecords tripRecords (ev # evs) = collectRecords tripRecords evs"

text \<open>
  \<open>tripSummary.RecordsFile!.Bucket\<close> and \<open>.Key\<close>: reading a property of \<open>undefined\<close> or
  \<open>null\<close> throws; anything but two strings is refused by the client before a request
  is made.
\<close>

definition recordsFileOf :: "item \<Rightarrow> error + string \<times> string" where
  "recordsFileOf tripSummary =
     (case map_of tripSummary ''RecordsFile'' of
        None \<Rightarrow> Inl TypeError
      | Some JNull \<Rightarrow> Inl TypeError
      | Some (JObj f) \<Rightarrow>
          (case (map_of f ''Bucket'', map_of f ''Key'') of
             (Some (JStr b), Some (JStr k)) \<Rightarrow> Inr (b, k)
           | _ \<Rightarrow> Inl ParamValidation)
      | Some _ \<Rightarrow> Inl ParamValidation)"

definition aggregationExecuted :: "item \<Rightarrow> bool" where
  "aggregationExecuted tripSummary =
     (case map_of tripSummary ''AggregationExecuted'' of None \<Rightarrow> False | Some v \<Rightarrow> truthy v)"

definition selectExpression :: "string \<Rightarrow> string" where
  "selectExpression TripId =
     ''select  * from s3object s where s.'' @ dq @ ''tripid'' @ dq @ '' = '' @ sq @ TripId @ sq"

definition aggregatedTripKey :: "string \<Rightarrow> string" where
  "aggregatedTripKey TripId = ''trips/'' @ TripId @ ''.json''"

text \<open>The branch \<open>if (!tripSummary.AggregationExecuted)\<close>; \<open>tr\<close> are the calls made so far.\<close>

definition coldPath ::
    "services \<Rightarrow> string \<Rightarrow> store \<Rightarrow> item \<Rightarrow> call list \<Rightarrow> (error + jsval) \<times> store \<times> call list" where
  "coldPath svc TripId st tripSummary tr =
     (case recordsFileOf tripSummary of
        Inl e \<Rightarrow> (Inl e, st, tr)
      | Inr (b, k) \<Rightarrow>
          (let tr1 = tr @ [S3SelectObjectContent b k (selectExpression TripId)] in
           case s3_selectObjectContent svc b k (selectExpression TripId) of
             Inl e \<Rightarrow> (Inl e, st, tr1)
           | Inr tripRecordsStream \<Rightarrow>
               (let tripRecords = collectRecords [] tripRecordsStream;
                    enhancedTrip = AList.update ''Records'' (JArr tripRecords) tripSummary;
                    body = JSON_stringify svc (JObj enhancedTrip);
                    tr2 = tr1 @ [S3PutObject (TRIP_RECORDS_BUCKET_NAME svc) (aggregatedTripKey TripId) body]
                in case s3_putObject svc st (TRIP_RECORDS_BUCKET_NAME svc) (aggregatedTripKey TripId) body of
                     Inl e \<Rightarrow> (Inl e, st, tr2)
                   | Inr st1 \<Rightarrow>
                       (let tr3 = tr2 @ [DdbUpdate [(''TripId'', JStr TripId)] ''AggregationExecuted'' (JBool True)]
                        in case dynamodb_update svc st1 [(''TripId'', JStr TripId)]
                                  ''AggregationExecuted'' (JBool True) of
                             Inl e \<Rightarrow> (Inl e, st1, tr3)
                           | Inr st2 \<Rightarrow> (Inr (JObj enhancedTrip), st2, tr3)))))"

text \<open>The \<open>else\<close> branch: fetch the stored object and parse it.\<close>

definition warmPath ::
    "services \<Rightarrow> string \<Rightarrow> store \<Rightarrow> call list \<Rightarrow> (error + jsval) \<times> store \<times> call list" where
  "warmPath svc TripId st tr =
     (let tr1 = tr @ [S3GetObject (TRIP_RECORDS_BUCKET_NAME svc) (aggregatedTripKey TripId)] in
      case s3_getObject svc st (TRIP_RECORDS_BUCKET_NAME svc) (aggregatedTripKey TripId) of
        Inl e \<Rightarrow> (Inl e, st, tr1)
      | Inr body \<Rightarrow>
          (case JSON_parse body of
             None \<Rightarrow> (Inl SyntaxError, st, tr1)
           | Some aggregatedTrip \<Rightarrow> (Inr aggregatedTrip, st, tr1)))"

text \<open>
  The handler. It returns the outcome, the store afterwards and the calls it made to
  the two stores, in order. A missing \<open>Item\<close> is \<open>undefined\<close>, and reading
  \<open>AggregationExecuted\<close> from it throws.
\<close>

definition tripsApi_handler ::
    "services \<Rightarrow> string \<Rightarrow> store \<Rightarrow> (error + jsval) \<times> store \<times> call list" where
  "tripsApi_handler svc TripId st =
     (let tr = [DdbGet [(''trip_id'', JStr TripId)]] in
      case dynamodb_get svc st [(''trip_id'', JStr TripId)] of
        Inl e \<Rightarrow> (Inl e, st, tr)
      | Inr None \<Rightarrow> (Inl TypeError, st, tr)
      | Inr (Some tripSummary) \<Rightarrow>
          if \<not> aggregationExecuted tripSummary then coldPath svc TripId st tripSummary tr
          else warmPath svc TripId st tr)"

section \<open>Notions used in the statements\<close>

subsection \<open>Segments of a storage key\<close>

text \<open>
  A segment binds a name when it contains \<open>=\<close>: the name is the text before the first
  \<open>=\<close>, the value the text between the first \<open>=\<close> and the next one (or the end of the
  segment). \<open>bindingsOf name segs\<close> are the segments that bind \<open>name\<close>, in order.
\<close>

definition isBinding :: "string \<Rightarrow> bool" where
  "isBinding seg = (CHR ''='' \<in> set seg)"

definition segName :: "string \<Rightarrow> string" where
  "segName seg = takeWhile (\<lambda>x. x \<noteq> CHR ''='') seg"

definition segValue :: "string \<Rightarrow> string" where
  "segValue seg = takeWhile (\<lambda>x. x \<noteq> CHR ''='') (tl (dropWhile (\<lambda>x. x \<noteq> CHR ''='') seg))"

definition bindingsOf :: "string \<Rightarrow> string list \<Rightarrow> string list" where
  "bindingsOf name segs =
     filter (\<lambda>s. isBinding s \<and> segName s = name \<and> name \<noteq> ''__proto__'') segs"

subsection \<open>The cache-fill invariant\<close>

text \<open>
  Every summary row whose flag reads as true has an object at the location of its
  trip in the bucket \<open>B\<close> of aggregated trips.
\<close>

definition cacheFilled :: "string \<Rightarrow> store \<Rightarrow> bool" where
  "cacheFilled B st =
     (\<forall>k i. summaries st k = Some i \<and> aggregationExecuted i
            \<longrightarrow> objects st (B, aggregatedTripKey k) \<noteq> None)"

fun isUpdate :: "call \<Rightarrow> bool" where
  "isUpdate (DdbUpdate k a v) = True"
| "isUpdate c = False"

text \<open>The columns of the trip summary result file: the select list of the summary query.\<close>

definition summaryColumns :: "string list" where
  "summaryColumns =
     [''vehicle_id'', ''trip_id'', ''start_date'', ''end_date'', ''duration'', ''event_count'']"

text \<open>
  The states that runs of the two functions lead to, from any state in which the
  invariant holds; each run has its own faults and scan results, and the bucket of
  aggregated trips is \<open>B\<close> in all of them.
\<close>

inductive reachable :: "string \<Rightarrow> store \<Rightarrow> bool" for B :: string where
  from_filled: "cacheFilled B st \<Longrightarrow> reachable B st"
| after_read: "reachable B st \<Longrightarrow> TRIP_RECORDS_BUCKET_NAME svc = B
          \<Longrightarrow> tripsApi_handler svc TripId st = (r, st', tr) \<Longrightarrow> reachable B st'"
| after_write: "reachable B st \<Longrightarrow> list_all (\<lambda>row. map fst row = summaryColumns) parsed
          \<Longrightarrow> storeTripSummaries svc st (map (summaryItem tripFile) parsed) = (u, st', tr)
          \<Longrightarrow> reachable B st'"

text \<open>
  Row \<open>k\<close> of the table \<open>m\<close> is one of the items \<open>S\<close>, and that item has the key \<open>k\<close>.
\<close>

definition writtenBy :: "item set \<Rightarrow> (string \<rightharpoonup> item) \<Rightarrow> string \<Rightarrow> bool" where
  "writtenBy S m k = (\<exists>j\<in>S. itemKey j = Some k \<and> m k = Some j)"

subsection \<open>The lines that a scan result keeps\<close>

definition recordPayloads :: "select_event list \<Rightarrow> string list" where
  "recordPayloads evs = concat (map (\<lambda>ev. case ev of RecordsEvent p \<Rightarrow> [p] | _ \<Rightarrow> []) evs)"

text \<open>The lines of the \<open>Records\<close> events, in delivery order.\<close>

definition payloadLines :: "select_event list \<Rightarrow> string list" where
  "payloadLines evs = concat (map (splitOn CHR 0x0A) (recordPayloads evs))"

text \<open>The successfully parsed lines, as the claim words it.\<close>

definition successfullyParsed :: "select_event list \<Rightarrow> jsval list" where
  "successfullyParsed evs = List.map_filter JSON_parse (payloadLines evs)"

text \<open>The successfully parsed lines whose value is truthy.\<close>

definition keptLine :: "string \<Rightarrow> jsval option" where
  "keptLine l = (case JSON_parse l of None \<Rightarrow> None | Some v \<Rightarrow> if truthy v then Some v else None)"

definition keptRecords :: "select_event list \<Rightarrow> jsval list" where
  "keptRecords evs = List.map_filter keptLine (payloadLines evs)"

subsection \<open>Query templates\<close>

text \<open>A text without braces and backslashes: \<open>States.Format\<close> copies it as it is.\<close>

definition formatPlain :: "string \<Rightarrow> bool" where
  "formatPlain s = list_all (\<lambda>c. c \<noteq> CHR ''{'' \<and> c \<noteq> CHR ''}'' \<and> c \<noteq> CHR 0x5C) s"

definition partitionNames :: "string list" where
  "partitionNames = [''year'', ''month'', ''day'', ''hour'', ''minute'']"

text \<open>The filter for five given partition values, in the form the claim gives.\<close>

definition filterText :: "string \<Rightarrow> string \<Rightarrow> string \<Rightarrow> string \<Rightarrow> string \<Rightarrow> string" where
  "filterText Y M D H Mi =
     ''a.year = '' @ sq @ Y @ sq @ '' and a.month = '' @ sq @ M @ sq @ '' and a.day = '' @ sq @ D @ sq
       @ '' and a.hour = '' @ sq @ H @ sq @ '' and a.minute = '' @ sq @ Mi @ sq"

text \<open>The two templates up to their placeholder.\<close>

definition summaryQueryHead :: "string \<Rightarrow> string" where
  "summaryQueryHead T =
      ''SELECT '' @ nl @
      ''      a.deviceid as vehicle_id,'' @ nl @
      ''      a.tripid as trip_id,'' @ nl @
      ''      b.eventdate as start_date,'' @ nl @
      ''      a.eventdate as end_date,'' @ nl @
      ''      date_diff('' @ sq @ ''second'' @ sq @ '', from_iso8601_timestamp(b.eventdate), from_iso8601_timestamp(a.eventdate)) as duration,'' @ nl @
      ''      (select count(1) from '' @ dq @ T @ dq @ '' c where a.tripid = c.tripid) as event_count'' @ nl @
      ''    FROM '' @ dq @ T @ dq @ '' a'' @ nl @
      ''    LEFT JOIN '' @ dq @ T @ dq @ '' b'' @ nl @
      ''      on a.tripid = b.tripid and b.eventtype = '' @ sq @ ''engine-start'' @ sq @ nl @
      ''    where '' @ nl @
      ''      a.eventtype = '' @ sq @ ''trip-finished'' @ sq @ nl @
      ''      and ''"

definition reducedQueryHead :: "string \<Rightarrow> string" where
  "reducedQueryHead T =
      ''SELECT *'' @ nl @
      ''      FROM '' @ dq @ T @ dq @ '' a'' @ nl @
      ''      where tripid in (SELECT tripid '' @ nl @
      ''          FROM '' @ dq @ T @ dq @ '' a'' @ nl @
      ''          where a.eventtype = '' @ sq @ ''trip-finished'' @ sq @ '' '' @ nl @
      ''              and ''"

definition reducedQueryTail :: string where
  "reducedQueryTail =
      '')'' @ nl @
      ''      order by tripid, eventdate;''"

subsection \<open>An example table of raw events\<close>

definition exampleTs :: "string \<Rightarrow> int" where
  "exampleTs s =
     (if s = ''2023-01-02T03:00:00.250Z'' then 1672628400250
      else if s = ''2023-01-02T03:04:00.000Z'' then 1672628640000
      else 0)"

definition exampleEvent ::
    "string \<Rightarrow> string \<Rightarrow> string \<Rightarrow> string \<Rightarrow> string \<Rightarrow> event_row" where
  "exampleEvent eid tid edate etype mi =
     \<lparr> eventid = Some eid, tripid = Some tid, deviceid = Some ''v1'', eventdate = Some edate,
       eventtype = Some etype, randomdata = None,
       year = ''2023'', month = ''01'', day = ''02'', hour = ''03'', minute = mi \<rparr>"

definition exampleTable :: "event_row list" where
  "exampleTable =
     [exampleEvent ''e1'' ''t1'' ''2023-01-02T03:00:00.250Z'' ''engine-start'' ''00'',
      exampleEvent ''e2'' ''t1'' ''2023-01-02T03:02:00.000Z'' ''keep-alive'' ''02'',
      exampleEvent ''e3'' ''t1'' ''2023-01-02T03:04:00.000Z'' ''trip-finished'' ''04'',
      exampleEvent ''e4'' ''t2'' ''2023-01-02T03:04:00.000Z'' ''trip-finished'' ''04'']"

definition exampleKey :: string where
  "exampleKey = ''raw/year=2023/month=01/day=02/hour=03/minute=04/part-0001''"

subsection \<open>Example inputs\<close>

text \<open>
  A serialiser that stands in for \<open>JSON.stringify\<close> in the examples: it writes the
  JSON text of a value, a number as its decimal mantissa and exponent.
\<close>

function showNat :: "nat \<Rightarrow> string" where
  "showNat n = (if n < 10 then [char_of (48 + n)] else showNat (n div 10) @ [char_of (48 + n mod 10)])"
  by pat_completeness auto
termination
  by (relation "measure id") auto

declare showNat.simps [simp del]

definition showInt :: "int \<Rightarrow> string" where
  "showInt i = (if i < 0 then ''-'' @ showNat (nat (- i)) else showNat (nat i))"

definition showString :: "string \<Rightarrow> string" where
  "showString s =
     dq @ concat (map (\<lambda>c. if c = CHR 0x22 \<or> c = CHR 0x5C then [CHR 0x5C, c] else [c]) s) @ dq"

fun showJson :: "jsval \<Rightarrow> string"
and showMembers :: "(string \<times> jsval) list \<Rightarrow> string list"
and showElements :: "jsval list \<Rightarrow> string list" where
  "showJson JNull = ''null''"
| "showJson (JBool b) = (if b then ''true'' else ''false'')"
| "showJson (JNum m e) = showInt m @ (if e = 0 then [] else ''e'' @ showInt e)"
| "showJson (JStr s) = showString s"
| "showJson (JArr xs) = ''['' @ join_js '','' (showElements xs) @ '']''"
| "showJson (JObj ps) = ''{'' @ join_js '','' (showMembers ps) @ ''}''"
| "showMembers [] = []"
| "showMembers ((k, v) # ps) = (showString k @ '':'' @ showJson v) # showMembers ps"
| "showElements [] = []"
| "showElements (x # xs) = showJson x # showElements xs"

definition exampleLine :: string where
  "exampleLine = ''{'' @ dq @ ''tripid'' @ dq @ '':'' @ dq @ ''t1'' @ dq @ ''}''"

definition exampleServices :: services where
  "exampleServices =
     \<lparr> TRIP_RECORDS_BUCKET_NAME = ''aggregated-trips'',
       fault = (\<lambda>c. None),
       selectResult = (\<lambda>b k e. [RecordsEvent (exampleLine @ nl), EndEvent]),
       JSON_stringify = showJson,
       csv_parse = (\<lambda>s. Inr []) \<rparr>"

definition exampleRow :: "(string \<times> string) list" where
  "exampleRow =
     [(''vehicle_id'', ''v1''), (''trip_id'', ''t1''), (''start_date'', ''2023-01-02T03:00:00Z''),
      (''end_date'', ''2023-01-02T03:04:00Z''), (''duration'', ''240''), (''event_count'', ''241'')]"

definition exampleRecordsFile :: item where
  "exampleRecordsFile = [(''Bucket'', JStr ''reduced-trips''), (''Key'', JStr ''records.csv'')]"

definition exampleSummary :: item where
  "exampleSummary = summaryItem (Some exampleRecordsFile) exampleRow"

definition exampleAggregate :: item where
  "exampleAggregate = AList.update ''Records'' (JArr [JObj [(''tripid'', JStr ''t1'')]]) exampleSummary"

definition exampleBody :: string where
  "exampleBody = showJson (JObj exampleAggregate)"

text \<open>A store with the summary of trip \<open>t1\<close> as the Summary Writer leaves it.\<close>

definition coldStore :: store where
  "coldStore = \<lparr> summaries = [''t1'' \<mapsto> exampleSummary], objects = Map.empty \<rparr>"

text \<open>A store in which trip \<open>t1\<close> is marked as aggregated and its object exists.\<close>

definition warmStore :: store where
  "warmStore =
     \<lparr> summaries = [''t1'' \<mapsto> AList.update ''AggregationExecuted'' (JBool True) exampleSummary],
       objects = [(''aggregated-trips'', ''trips/t1.json'') \<mapsto> exampleBody] \<rparr>"

section \<open>Auxiliary lemmas\<close>

subsection \<open>Splitting strings\<close>

lemma splitOn_ne: "splitOn c xs \<noteq> []"
  by (induction xs) (auto split: list.splits)

lemma splitOn_none: "c \<notin> set a \<Longrightarrow> splitOn c a = [a]"
  by (induction a) auto

lemma splitOn_append: "c \<notin> set a \<Longrightarrow> splitOn c (a @ c # b) = a # splitOn c b"
  by (induction a) auto

lemma splitOn_length: "length (splitOn c xs) = Suc (length (filter (\<lambda>x. x = c) xs))"
  by (induction xs) (auto split: list.splits simp: splitOn_ne)

lemma splitOn_short: "(length (splitOn c xs) < 2) = (c \<notin> set xs)"
proof -
  have "(length (filter (\<lambda>x. x = c) xs) = 0) = (c \<notin> set xs)"
    by (induction xs) auto
  then show ?thesis by (auto simp: splitOn_length)
qed

lemma split_at_first:
  assumes "c \<in> set xs"
  shows "xs = takeWhile (\<lambda>x. x \<noteq> c) xs @ c # tl (dropWhile (\<lambda>x. x \<noteq> c) xs)"
proof -
  have "dropWhile (\<lambda>x. x \<noteq> c) xs \<noteq> []" using assms by (simp add: dropWhile_eq_Nil_conv)
  moreover have "hd (dropWhile (\<lambda>x. x \<noteq> c) xs) = c"
    using assms hd_dropWhile[of "\<lambda>x. x \<noteq> c" xs] by (simp add: dropWhile_eq_Nil_conv)
  ultimately have "dropWhile (\<lambda>x. x \<noteq> c) xs = c # tl (dropWhile (\<lambda>x. x \<noteq> c) xs)"
    by (metis list.collapse)
  then show ?thesis by (metis takeWhile_dropWhile_id)
qed

lemma splitOn_first:
  assumes "c \<in> set xs"
  shows "splitOn c xs = takeWhile (\<lambda>x. x \<noteq> c) xs # splitOn c (tl (dropWhile (\<lambda>x. x \<noteq> c) xs))"
proof -
  have "c \<notin> set (takeWhile (\<lambda>x. x \<noteq> c) xs)"
    by (auto dest: set_takeWhileD)
  from splitOn_append[OF this, of "tl (dropWhile (\<lambda>x. x \<noteq> c) xs)"]
  show ?thesis by (simp only: split_at_first[OF assms, symmetric])
qed

lemma takeWhile_all: "c \<notin> set xs \<Longrightarrow> takeWhile (\<lambda>x. x \<noteq> c) xs = xs"
  by (induction xs) auto

lemma splitOn_hd: "hd (splitOn c xs) = takeWhile (\<lambda>x. x \<noteq> c) xs"
proof (cases "c \<in> set xs")
  case True
  show ?thesis by (subst splitOn_first[OF True]) (simp only: list.sel)
next
  case False
  show ?thesis by (simp only: splitOn_none[OF False] takeWhile_all[OF False] list.sel)
qed

lemma splitOn_nth0: "splitOn c xs ! 0 = takeWhile (\<lambda>x. x \<noteq> c) xs"
  using splitOn_hd[of c xs] splitOn_ne[of c xs] by (simp add: hd_conv_nth)

lemma splitOn_nth1:
  assumes "c \<in> set xs"
  shows "splitOn c xs ! Suc 0 = takeWhile (\<lambda>x. x \<noteq> c) (tl (dropWhile (\<lambda>x. x \<noteq> c) xs))"
proof -
  have "splitOn c xs ! Suc 0 = splitOn c (tl (dropWhile (\<lambda>x. x \<noteq> c) xs)) ! 0"
    by (subst splitOn_first[OF assms]) simp
  then show ?thesis by (simp only: splitOn_nth0)
qed

lemma keyParam_alt:
  "keyParam raw seg = (if isBinding seg then setProp raw (segName seg) (segValue seg) else raw)"
proof (cases "CHR ''='' \<in> set seg")
  case True
  then have "\<not> length (splitOn CHR ''='' seg) < 2" by (simp add: splitOn_short)
  with True show ?thesis
    by (simp add: keyParam_def Let_def isBinding_def segName_def segValue_def splitOn_nth0 splitOn_nth1)
next
  case False
  then have "length (splitOn CHR ''='' seg) < 2" by (simp add: splitOn_short)
  with False show ?thesis
    by (simp add: keyParam_def Let_def isBinding_def)
qed

lemma getProp_setProp:
  "getProp (setProp raw n v) name = (if n = name \<and> n \<noteq> ''__proto__'' then Some v else getProp raw name)"
  by (simp add: getProp_def setProp_def update_conv')

lemma extract_segs:
  "getProp (foldl keyParam raw segs) name =
     (if bindingsOf name segs = [] then getProp raw name
      else Some (segValue (last (bindingsOf name segs))))"
proof (induction segs rule: rev_induct)
  case Nil
  then show ?case by (simp add: bindingsOf_def)
next
  case (snoc s segs)
  show ?case
  proof (cases "isBinding s \<and> segName s = name \<and> name \<noteq> ''__proto__''")
    case True
    then show ?thesis
      by (simp add: keyParam_alt getProp_setProp bindingsOf_def)
  next
    case False
    then have "getProp (keyParam (foldl keyParam raw segs) s) name = getProp (foldl keyParam raw segs) name"
      by (auto simp: keyParam_alt getProp_setProp)
    moreover from False have "bindingsOf name (segs @ [s]) = bindingsOf name segs"
      by (auto simp: bindingsOf_def)
    ultimately show ?thesis using snoc by simp
  qed
qed

subsection \<open>Chunks and batch writes\<close>

lemma slice_len: "i < length xs \<Longrightarrow> length (slice i (min (i + 25) (length xs)) xs) = min 25 (length xs - i)"
  by (auto simp: slice_def)

lemma slice_drop: "slice i (min (i + 25) (length xs)) xs @ drop (i + 25) xs = drop i xs"
proof -
  have "take 25 (drop i xs) @ drop 25 (drop i xs) = drop i xs" by (rule append_take_drop_id)
  moreover have "slice i (min (i + 25) (length xs)) xs = take 25 (drop i xs)"
    by (auto simp: slice_def min_def)
  ultimately show ?thesis by (simp add: add.commute)
qed

lemma chunkLoop_concat: "concat (chunkLoop i xs acc) = concat acc @ drop i xs"
proof (induction i xs acc rule: chunkLoop.induct)
  case (1 i xs acc)
  show ?case
  proof (cases "i < length xs")
    case True
    then show ?thesis
      using "1" by (subst chunkLoop.simps) (simp add: slice_drop)
  next
    case False
    then show ?thesis by (subst chunkLoop.simps) simp
  qed
qed

lemma chunkLoop_all:
  "list_all (\<lambda>c. c \<noteq> [] \<and> length c \<le> 25) acc \<Longrightarrow>
   list_all (\<lambda>c. c \<noteq> [] \<and> length c \<le> 25) (chunkLoop i xs acc)"
proof (induction i xs acc rule: chunkLoop.induct)
  case (1 i xs acc)
  show ?case
  proof (cases "i < length xs")
    case True
    have "length (slice i (min (i + 25) (length xs)) xs) = min 25 (length xs - i)"
      using True by (rule slice_len)
    then have "slice i (min (i + 25) (length xs)) xs \<noteq> [] \<and> length (slice i (min (i + 25) (length xs)) xs) \<le> 25"
      using True by (cases "slice i (min (i + 25) (length xs)) xs") auto
    then show ?thesis
      using "1" True by (subst chunkLoop.simps) simp
  next
    case False
    then show ?thesis using "1.prems" by (subst chunkLoop.simps) simp
  qed
qed

lemma chunkLoop_full:
  "list_all (\<lambda>c. length c = 25) acc \<Longrightarrow>
   list_all (\<lambda>c. length c = 25) (butlast (chunkLoop i xs acc)) \<and>
   (\<not> i < length xs \<longrightarrow> chunkLoop i xs acc = acc)"
proof (induction i xs acc rule: chunkLoop.induct)
  case (1 i xs acc)
  show ?case
  proof (cases "i < length xs")
    case True
    note lt = True
    show ?thesis
    proof (cases "i + 25 < length xs")
      case True
      have "length (slice i (min (i + 25) (length xs)) xs) = 25"
        using True lt by (auto simp: slice_def)
      then show ?thesis
        using "1.IH"[OF lt] "1.prems" lt by (subst chunkLoop.simps) simp
    next
      case False
      have "chunkLoop (i + 25) xs (acc @ [slice i (min (i + 25) (length xs)) xs])
            = acc @ [slice i (min (i + 25) (length xs)) xs]"
        using False by (subst chunkLoop.simps) simp
      then show ?thesis
        using "1.prems" lt by (subst chunkLoop.simps) simp
    qed
  next
    case False
    then have "chunkLoop i xs acc = acc" by (subst chunkLoop.simps) simp
    then show ?thesis using "1.prems" by (simp add: list_all_iff in_set_butlastD)
  qed
qed

lemma chunkLoop_length: "length (chunkLoop i xs acc) = length acc + (length xs - i + 24) div 25"
proof (induction i xs acc rule: chunkLoop.induct)
  case (1 i xs acc)
  show ?case
  proof (cases "i < length xs")
    case True
    have "(length xs - i + 24) div 25 = Suc ((length xs - (i + 25) + 24) div 25)"
      using True by (cases "i + 25 \<le> length xs") auto
    then show ?thesis
      using "1" True by (subst chunkLoop.simps) simp
  next
    case False
    then show ?thesis by (subst chunkLoop.simps) simp
  qed
qed

lemma writeChunks_trace: "snd (snd (writeChunks svc st cs)) = map DdbBatchWrite cs"
proof (induction cs arbitrary: st)
  case Nil
  show ?case by simp
next
  case (Cons c cs)
  show ?case
  proof (cases "dynamodb_batchWrite svc st c")
    case (Inl e)
    then show ?thesis using Cons[of st] by (auto split: prod.splits)
  next
    case (Inr st1)
    then show ?thesis using Cons[of st1] by (auto split: prod.splits)
  qed
qed

subsection \<open>The calls of the read path\<close>

lemma keyOf_trip_id: "keyOf [(''trip_id'', JStr t)] = (if t = [] then None else Some t)"
  by (simp add: keyOf_def tripSummaryTable_partitionKey_def)

lemma keyOf_TripId: "keyOf [(''TripId'', JStr t)] = None"
  by (simp add: keyOf_def tripSummaryTable_partitionKey_def)

lemma update_TripId_rejected:
  "dynamodb_update svc st [(''TripId'', JStr t)] a v =
     Inl (case fault svc (DdbUpdate [(''TripId'', JStr t)] a v) of Some e \<Rightarrow> e | None \<Rightarrow> ValidationException)"
  by (simp add: dynamodb_update_def keyOf_TripId split: option.splits)

lemma coldPath_summaries: "summaries (fst (snd (coldPath svc t st i tr))) = summaries st"
  by (auto simp: coldPath_def Let_def update_TripId_rejected s3_putObject_def split: sum.splits prod.splits option.splits)

lemma coldPath_objects:
  "objects (fst (snd (coldPath svc t st i tr))) (b, k) = None \<Longrightarrow> objects st (b, k) = None"
  by (auto simp: coldPath_def Let_def update_TripId_rejected s3_putObject_def split: sum.splits prod.splits option.splits if_splits)

lemma warmPath_store: "fst (snd (warmPath svc t st tr)) = st"
  by (auto simp: warmPath_def Let_def split: sum.splits option.splits)

lemma handler_summaries: "summaries (fst (snd (tripsApi_handler svc t st))) = summaries st"
  by (auto simp: tripsApi_handler_def Let_def coldPath_summaries warmPath_store split: sum.splits option.splits)

lemma handler_objects:
  "objects (fst (snd (tripsApi_handler svc t st))) (b, k) = None \<Longrightarrow> objects st (b, k) = None"
  by (auto simp: tripsApi_handler_def Let_def warmPath_store split: sum.splits option.splits if_splits dest: coldPath_objects)

subsection \<open>Preservation of the cache-fill invariant and the order of calls\<close>

lemma cacheFilled_read:
  assumes "cacheFilled B st"
  shows "cacheFilled B (fst (snd (tripsApi_handler svc t st)))"
  unfolding cacheFilled_def
proof (intro allI impI)
  fix k i
  assume a: "summaries (fst (snd (tripsApi_handler svc t st))) k = Some i \<and> aggregationExecuted i"
  then have "summaries st k = Some i" by (simp add: handler_summaries)
  with a assms have "objects st (B, aggregatedTripKey k) \<noteq> None"
    unfolding cacheFilled_def by blast
  then show "objects (fst (snd (tripsApi_handler svc t st))) (B, aggregatedTripKey k) \<noteq> None"
    using handler_objects[of svc t st B "aggregatedTripKey k"] by (cases "objects (fst (snd (tripsApi_handler svc t st))) (B, aggregatedTripKey k)") simp_all
qed

lemma putItem_cases: "putItem m i k = m k \<or> putItem m i k = Some i"
  by (simp add: putItem_def split: option.splits)

lemma foldl_putItem_cases:
  "foldl putItem m items k = m k \<or> (\<exists>j\<in>set items. foldl putItem m items k = Some j)"
proof (induction items arbitrary: m)
  case Nil
  show ?case by simp
next
  case (Cons i items)
  from Cons[of "putItem m i"] putItem_cases[of m i k] show ?case by auto
qed

lemma batchWrite_cases:
  assumes "dynamodb_batchWrite svc st items = Inr st1"
  shows "objects st1 = objects st
         \<and> (summaries st1 k = summaries st k \<or> (\<exists>j\<in>set items. summaries st1 k = Some j))"
  using assms foldl_putItem_cases[of "summaries st" items k]
  by (auto simp: dynamodb_batchWrite_def split: option.splits if_splits)

lemma writeChunks_cases:
  "objects (fst (snd (writeChunks svc st cs))) = objects st
   \<and> (summaries (fst (snd (writeChunks svc st cs))) k = summaries st k
      \<or> (\<exists>j\<in>set (concat cs). summaries (fst (snd (writeChunks svc st cs))) k = Some j))"
proof (induction cs arbitrary: st)
  case Nil
  show ?case by simp
next
  case (Cons c cs)
  show ?case
  proof (cases "dynamodb_batchWrite svc st c")
    case (Inl e)
    then show ?thesis using Cons[of st] by (auto split: prod.splits)
  next
    case (Inr st1)
    from batchWrite_cases[OF Inr, of k] Cons[of st1] Inr show ?thesis
      by (auto split: prod.splits)
  qed
qed

lemma storeTripSummaries_cases:
  "objects (fst (snd (storeTripSummaries svc st rows))) = objects st
   \<and> (summaries (fst (snd (storeTripSummaries svc st rows))) k = summaries st k
      \<or> (\<exists>j\<in>set rows. summaries (fst (snd (storeTripSummaries svc st rows))) k = Some j))"
  using writeChunks_cases[of svc st "chunkLoop 0 rows []" k] chunkLoop_concat[of 0 rows "[]"]
  by (simp add: storeTripSummaries_def)

lemma summaryItem_attr:
  "a \<noteq> ''RecordsFile'' \<Longrightarrow>
   map_of (summaryItem tripFile row) a = map_option JStr (map_of row a)"
  by (cases tripFile) (simp_all add: summaryItem_def update_conv' map_of_map split_def comp_def
        map_of_map[of JStr, unfolded split_def comp_def])

lemma summaryItem_flag:
  assumes "map fst row = summaryColumns"
  shows "\<not> aggregationExecuted (summaryItem tripFile row)"
proof -
  have "''AggregationExecuted'' \<notin> set (map fst row)"
    by (simp add: assms summaryColumns_def)
  then have "map_of row ''AggregationExecuted'' = None"
    by (simp add: map_of_eq_None_iff)
  then show ?thesis
    by (simp add: aggregationExecuted_def summaryItem_attr)
qed

lemma cacheFilled_write:
  assumes "cacheFilled B st"
      and "list_all (\<lambda>row. map fst row = summaryColumns) parsed"
  shows "cacheFilled B (fst (snd (storeTripSummaries svc st (map (summaryItem tripFile) parsed))))"
  unfolding cacheFilled_def
proof (intro allI impI)
  fix k i
  let ?st' = "fst (snd (storeTripSummaries svc st (map (summaryItem tripFile) parsed)))"
  assume a: "summaries ?st' k = Some i \<and> aggregationExecuted i"
  have o: "objects ?st' = objects st"
    using storeTripSummaries_cases[of svc st _ k] by blast
  have "summaries ?st' k = summaries st k
        \<or> (\<exists>j\<in>set (map (summaryItem tripFile) parsed). summaries ?st' k = Some j)"
    using storeTripSummaries_cases[of svc st _ k] by blast
  then show "objects ?st' (B, aggregatedTripKey k) \<noteq> None"
  proof
    assume "summaries ?st' k = summaries st k"
    with a assms(1) show ?thesis unfolding cacheFilled_def o by auto
  next
    assume "\<exists>j\<in>set (map (summaryItem tripFile) parsed). summaries ?st' k = Some j"
    then obtain row where "row \<in> set parsed" and "i = summaryItem tripFile row"
      using a by auto
    with assms(2) have "\<not> aggregationExecuted i"
      by (auto simp: list_all_iff summaryItem_flag)
    with a show ?thesis by simp
  qed
qed

lemma reachable_cacheFilled: "reachable B st \<Longrightarrow> cacheFilled B st"
proof (induction rule: reachable.induct)
  case (from_filled st)
  then show ?case .
next
  case (after_read st svc TripId r st' tr)
  from cacheFilled_read[OF after_read.IH, of svc TripId] after_read.hyps(3)
  show ?case by simp
next
  case (after_write st parsed svc tripFile u st' tr)
  from cacheFilled_write[OF after_write.IH after_write.hyps(2), of svc tripFile] after_write.hyps(3)
  show ?case by simp
qed

lemma not_update_mem: "list_all (\<lambda>c. \<not> isUpdate c) tr \<Longrightarrow> DdbUpdate k a v \<notin> set tr"
  by (auto simp: list_all_iff)

lemma coldPath_order:
  assumes "coldPath svc TripId st i tr0 = (r, st1, tr)"
      and "DdbUpdate k a v \<in> set tr"
      and "list_all (\<lambda>c. \<not> isUpdate c) tr0"
  shows "\<exists>pre body.
           tr = pre @ [S3PutObject (TRIP_RECORDS_BUCKET_NAME svc) (aggregatedTripKey TripId) body,
                       DdbUpdate k a v]
           \<and> list_all (\<lambda>c. \<not> isUpdate c) pre
           \<and> fault svc (S3PutObject (TRIP_RECORDS_BUCKET_NAME svc) (aggregatedTripKey TripId) body) = None
           \<and> objects st1 (TRIP_RECORDS_BUCKET_NAME svc, aggregatedTripKey TripId) = Some body"
proof (cases "recordsFileOf i")
  case (Inl e)
  with assms show ?thesis by (auto simp: coldPath_def dest: not_update_mem)
next
  case rf: (Inr bk)
  obtain b kk where bk: "bk = (b, kk)" by (cases bk)
  show ?thesis
  proof (cases "s3_selectObjectContent svc b kk (selectExpression TripId)")
    case (Inl e)
    with assms rf bk show ?thesis by (auto simp: coldPath_def Let_def dest: not_update_mem)
  next
    case sel: (Inr evs)
    let ?body = "JSON_stringify svc (JObj (AList.update ''Records'' (JArr (collectRecords [] evs)) i))"
    let ?B = "TRIP_RECORDS_BUCKET_NAME svc"
    let ?tr1 = "tr0 @ [S3SelectObjectContent b kk (selectExpression TripId)]"
    let ?put = "S3PutObject ?B (aggregatedTripKey TripId) ?body"
    let ?upd = "DdbUpdate [(''TripId'', JStr TripId)] ''AggregationExecuted'' (JBool True)"
    have cp: "coldPath svc TripId st i tr0 =
        (case s3_putObject svc st ?B (aggregatedTripKey TripId) ?body of
           Inl e \<Rightarrow> (Inl e, st, ?tr1 @ [?put])
         | Inr s1 \<Rightarrow> (Inl (case fault svc ?upd of Some e \<Rightarrow> e | None \<Rightarrow> ValidationException),
                       s1, (?tr1 @ [?put]) @ [?upd]))"
      by (simp add: coldPath_def Let_def rf bk sel update_TripId_rejected split: sum.splits)
    show ?thesis
    proof (cases "fault svc ?put")
      case (Some e)
      then have "tr = ?tr1 @ [?put]"
        using assms(1) unfolding cp by (simp add: s3_putObject_def)
      with assms(2,3) show ?thesis by (auto dest: not_update_mem)
    next
      case None
      then have tr: "tr = ?tr1 @ [?put, ?upd]"
        and st1: "st1 = st\<lparr>objects := (objects st)((?B, aggregatedTripKey TripId) \<mapsto> ?body)\<rparr>"
        using assms(1) unfolding cp by (simp_all add: s3_putObject_def)
      have "DdbUpdate k a v = ?upd"
        using assms(2,3) unfolding tr by (auto dest: not_update_mem)
      with tr st1 None assms(3) show ?thesis
        by (intro exI[of _ ?tr1] exI[of _ ?body]) simp
    qed
  qed
qed

lemma handler_order:
  assumes "tripsApi_handler svc TripId st = (r, st1, tr)"
      and "DdbUpdate k a v \<in> set tr"
  shows "\<exists>pre body.
           tr = pre @ [S3PutObject (TRIP_RECORDS_BUCKET_NAME svc) (aggregatedTripKey TripId) body,
                       DdbUpdate k a v]
           \<and> list_all (\<lambda>c. \<not> isUpdate c) pre
           \<and> fault svc (S3PutObject (TRIP_RECORDS_BUCKET_NAME svc) (aggregatedTripKey TripId) body) = None
           \<and> objects st1 (TRIP_RECORDS_BUCKET_NAME svc, aggregatedTripKey TripId) = Some body"
proof (cases "dynamodb_get svc st [(''trip_id'', JStr TripId)]")
  case (Inl e)
  with assms show ?thesis by (auto simp: tripsApi_handler_def)
next
  case g: (Inr io)
  show ?thesis
  proof (cases io)
    case None
    with assms g show ?thesis by (auto simp: tripsApi_handler_def)
  next
    case (Some i)
    show ?thesis
    proof (cases "aggregationExecuted i")
      case True
      with assms g Some show ?thesis
        by (auto simp: tripsApi_handler_def warmPath_def Let_def split: sum.splits option.splits)
    next
      case False
      with assms g Some have "coldPath svc TripId st i [DdbGet [(''trip_id'', JStr TripId)]] = (r, st1, tr)"
        by (simp add: tripsApi_handler_def)
      from coldPath_order[OF this assms(2)] show ?thesis by simp
    qed
  qed
qed

subsection \<open>Rows written by the Summary Writer\<close>

lemma putItem_written: "writtenBy S m k \<Longrightarrow> i \<in> S \<Longrightarrow> writtenBy S (putItem m i) k"
  by (auto simp: writtenBy_def putItem_def split: option.splits)

lemma foldl_putItem_written:
  "writtenBy S m k \<Longrightarrow> set items \<subseteq> S \<Longrightarrow> writtenBy S (foldl putItem m items) k"
  by (induction items arbitrary: m) (auto simp: putItem_written)

lemma foldl_putItem_new:
  "i \<in> set items \<Longrightarrow> itemKey i = Some k \<Longrightarrow> set items \<subseteq> S
   \<Longrightarrow> writtenBy S (foldl putItem m items) k"
proof (induction items arbitrary: m)
  case Nil
  then show ?case by simp
next
  case (Cons x items)
  show ?case
  proof (cases "i = x")
    case True
    then have "writtenBy S (putItem m x) k"
      using Cons.prems by (auto simp: writtenBy_def putItem_def)
    then show ?thesis using Cons.prems foldl_putItem_written[of S "putItem m x" k items] by simp
  next
    case False
    then show ?thesis using Cons by auto
  qed
qed

lemma writeChunks_written:
  "writtenBy S (summaries st) k \<Longrightarrow> \<forall>c\<in>set cs. set c \<subseteq> S
   \<Longrightarrow> writtenBy S (summaries (fst (snd (writeChunks svc st cs)))) k"
proof (induction cs arbitrary: st)
  case Nil
  then show ?case by simp
next
  case (Cons c cs)
  show ?case
  proof (cases "dynamodb_batchWrite svc st c")
    case (Inl e)
    then show ?thesis using Cons.IH[of st] Cons.prems by (auto split: prod.splits)
  next
    case (Inr st1)
    then have "summaries st1 = foldl putItem (summaries st) c"
      by (auto simp: dynamodb_batchWrite_def split: option.splits if_splits)
    then have "writtenBy S (summaries st1) k"
      using Cons.prems foldl_putItem_written[of S "summaries st" k c] by simp
    then show ?thesis using Cons.IH[of st1] Cons.prems Inr by (auto split: prod.splits)
  qed
qed

lemma writeChunks_new:
  "fst (writeChunks svc st cs) = Inr () \<Longrightarrow> i \<in> set (concat cs) \<Longrightarrow> \<forall>c\<in>set cs. set c \<subseteq> S
   \<Longrightarrow> \<exists>k. itemKey i = Some k \<and> writtenBy S (summaries (fst (snd (writeChunks svc st cs)))) k"
proof (induction cs arbitrary: st)
  case Nil
  then show ?case by simp
next
  case (Cons c cs)
  show ?case
  proof (cases "dynamodb_batchWrite svc st c")
    case (Inl e)
    then show ?thesis using Cons.prems(1) by (auto split: prod.splits)
  next
    case (Inr st1)
    then have s1: "summaries st1 = foldl putItem (summaries st) c" and k: "None \<notin> set (map itemKey c)"
      by (auto simp: dynamodb_batchWrite_def split: option.splits if_splits)
    have rest: "fst (writeChunks svc st1 cs) = Inr ()"
      using Cons.prems(1) Inr by (auto split: prod.splits)
    have eq: "fst (snd (writeChunks svc st (c # cs))) = fst (snd (writeChunks svc st1 cs))"
      using Inr by (auto split: prod.splits)
    show ?thesis
    proof (cases "i \<in> set c")
      case True
      then obtain kk where kk: "itemKey i = Some kk" using k by (cases "itemKey i") force+
      have "writtenBy S (summaries st1) kk"
        unfolding s1 using foldl_putItem_new[OF True kk, of S] Cons.prems(3) by simp
      then have "writtenBy S (summaries (fst (snd (writeChunks svc st1 cs)))) kk"
        using writeChunks_written Cons.prems(3) by simp
      with kk eq show ?thesis by auto
    next
      case False
      then have "i \<in> set (concat cs)" using Cons.prems(2) by simp
      from Cons.IH[OF rest this] Cons.prems(3) eq show ?thesis by simp
    qed
  qed
qed

lemma summaryItem_key:
  "itemKey (summaryItem tripFile row) =
     (case map_of row ''trip_id'' of None \<Rightarrow> None | Some v \<Rightarrow> if v = [] then None else Some v)"
  by (simp add: itemKey_def tripSummaryTable_partitionKey_def summaryItem_attr split: option.splits)

subsection \<open>Lines kept from a scan\<close>

lemma JSON_parse_empty: "JSON_parse [] = None"
  by code_simp

lemma JSON_parse_null: "JSON_parse ''null'' = Some JNull"
  by code_simp

lemma parsedRecords_kept: "parsedRecords p = List.map_filter keptLine (splitOn CHR 0x0A p)"
proof -
  have "filter truthy (map (\<lambda>r. case JSON_parse r of Some v \<Rightarrow> v | None \<Rightarrow> JNull) (filter (\<lambda>r. r \<noteq> []) ls))
          = List.map_filter keptLine ls" for ls
    by (induction ls) (auto simp: keptLine_def JSON_parse_empty split: option.splits)
  then show ?thesis by (simp add: parsedRecords_def)
qed

lemma map_filter_append: "List.map_filter f (xs @ ys) = List.map_filter f xs @ List.map_filter f ys"
  by (simp add: map_filter_def)

lemma collectRecords_kept: "collectRecords acc evs = acc @ keptRecords evs"
proof (induction evs arbitrary: acc)
  case Nil
  show ?case by (simp add: keptRecords_def payloadLines_def recordPayloads_def)
next
  case (Cons ev evs)
  have k: "keptRecords (ev # evs) =
             (case ev of RecordsEvent p \<Rightarrow> parsedRecords p | _ \<Rightarrow> []) @ keptRecords evs"
    by (cases ev) (simp_all add: keptRecords_def payloadLines_def recordPayloads_def
          map_filter_append parsedRecords_kept)
  show ?case using k by (cases ev) (simp_all add: Cons)
qed

subsection \<open>The example runs\<close>

lemma exampleLine_parse: "JSON_parse exampleLine = Some (JObj [(''tripid'', JStr ''t1'')])"
  by code_simp

lemma example_parsed:
  "parsedRecords (exampleLine @ nl) = [JObj [(''tripid'', JStr ''t1'')]]"
proof -
  have n: "CHR 0x0A \<notin> set exampleLine" by (simp add: exampleLine_def)
  have e: "exampleLine \<noteq> []" by (simp add: exampleLine_def)
  have "splitOn CHR 0x0A (exampleLine @ nl) = [exampleLine, []]"
    using splitOn_append[OF n, of "[]"] by simp
  then show ?thesis by (simp add: parsedRecords_def e exampleLine_parse)
qed

lemma exampleSummary_cold: "\<not> aggregationExecuted exampleSummary"
  by (simp add: exampleSummary_def summaryItem_flag exampleRow_def summaryColumns_def)

lemma exampleSummary_file: "recordsFileOf exampleSummary = Inr (''reduced-trips'', ''records.csv'')"
  by (simp add: recordsFileOf_def exampleSummary_def summaryItem_def update_conv' exampleRecordsFile_def)

lemma example_cold_run:
  "tripsApi_handler exampleServices ''t1'' coldStore =
     (Inl ValidationException,
      coldStore\<lparr>objects := [(''aggregated-trips'', ''trips/t1.json'') \<mapsto> exampleBody]\<rparr>,
      [DdbGet [(''trip_id'', JStr ''t1'')],
       S3SelectObjectContent ''reduced-trips'' ''records.csv'' (selectExpression ''t1''),
       S3PutObject ''aggregated-trips'' ''trips/t1.json'' exampleBody,
       DdbUpdate [(''TripId'', JStr ''t1'')] ''AggregationExecuted'' (JBool True)])"
proof -
  have g: "dynamodb_get exampleServices coldStore [(''trip_id'', JStr ''t1'')] = Inr (Some exampleSummary)"
    by (simp add: dynamodb_get_def keyOf_trip_id coldStore_def exampleServices_def)
  have s: "s3_selectObjectContent exampleServices ''reduced-trips'' ''records.csv'' (selectExpression ''t1'')
             = Inr [RecordsEvent (exampleLine @ nl), EndEvent]"
    by (simp add: s3_selectObjectContent_def exampleServices_def)
  have b: "JSON_stringify exampleServices (JObj (AList.update ''Records'' (JArr [JObj [(''tripid'', JStr ''t1'')]]) exampleSummary))
             = exampleBody"
    by (simp add: exampleServices_def exampleBody_def exampleAggregate_def del: showJson.simps)
  have n: "TRIP_RECORDS_BUCKET_NAME exampleServices = ''aggregated-trips''"
    by (simp add: exampleServices_def)
  have p: "s3_putObject exampleServices coldStore ''aggregated-trips'' ''trips/t1.json'' exampleBody
             = Inr (coldStore\<lparr>objects := [(''aggregated-trips'', ''trips/t1.json'') \<mapsto> exampleBody]\<rparr>)"
    by (simp add: s3_putObject_def exampleServices_def coldStore_def)
  have u: "fault exampleServices (DdbUpdate [(''TripId'', JStr ''t1'')] ''AggregationExecuted'' (JBool True)) = None"
    by (simp add: exampleServices_def)
  show ?thesis
    by (simp add: tripsApi_handler_def g exampleSummary_cold coldPath_def exampleSummary_file s
          example_parsed b n p update_TripId_rejected u aggregatedTripKey_def Let_def del: showJson.simps)
qed

lemma warmStore_filled: "cacheFilled ''aggregated-trips'' warmStore"
  by (simp add: cacheFilled_def warmStore_def aggregatedTripKey_def)

lemma example_chunks: "chunkLoop 0 [exampleSummary] [] = [[exampleSummary]]"
  by (simp add: chunkLoop.simps slice_def)

lemma example_rewrite:
  "storeTripSummaries exampleServices warmStore (map (summaryItem (Some exampleRecordsFile)) [exampleRow]) =
     (Inr (), warmStore\<lparr>summaries := [''t1'' \<mapsto> exampleSummary]\<rparr>, [DdbBatchWrite [exampleSummary]])"
proof -
  have k: "itemKey exampleSummary = Some ''t1''"
    by (simp add: exampleSummary_def summaryItem_key exampleRow_def)
  have "dynamodb_batchWrite exampleServices warmStore [exampleSummary]
          = Inr (warmStore\<lparr>summaries := [''t1'' \<mapsto> exampleSummary]\<rparr>)"
    by (simp add: dynamodb_batchWrite_def exampleServices_def k putItem_def warmStore_def)
  then show ?thesis
    by (simp add: storeTripSummaries_def example_chunks exampleSummary_def[symmetric])
qed

subsection \<open>Templates and their rendering\<close>

lemma format_plain_prefix:
  "formatPlain p \<Longrightarrow> States_Format (p @ rest) args = map_option ((@) p) (States_Format rest args)"
proof (induction p)
  case Nil
  show ?case by (simp add: option.map_ident)
next
  case (Cons c p)
  then show ?case by (simp add: formatPlain_def option.map_comp comp_def)
qed

lemma format_plain_end: "formatPlain p \<Longrightarrow> States_Format p [] = Some p"
  using format_plain_prefix[of p "[]" "[]"] by simp

lemma format_one_placeholder:
  assumes "formatPlain pre" and "formatPlain post"
  shows "States_Format (pre @ ''{}'' @ post) [f] = Some (pre @ f @ post)"
  using assms by (simp add: format_plain_prefix format_plain_end)

lemma formatPlain_append: "formatPlain (a @ b) = (formatPlain a \<and> formatPlain b)"
  by (simp add: formatPlain_def)

lemma summary_template_split: "FinishedTripsSummaryQueryTemplate T = summaryQueryHead T @ ''{}'' @ '';''"
  by (simp add: FinishedTripsSummaryQueryTemplate_def summaryQueryHead_def)

lemma reduced_template_split: "ReducedTripsQueryTemplate T = reducedQueryHead T @ ''{}'' @ reducedQueryTail"
  by (simp add: ReducedTripsQueryTemplate_def reducedQueryHead_def reducedQueryTail_def)

lemma summary_head_plain: "formatPlain T \<Longrightarrow> formatPlain (summaryQueryHead T)"
  by (simp add: summaryQueryHead_def formatPlain_append) (simp add: formatPlain_def)

lemma reduced_head_plain: "formatPlain T \<Longrightarrow> formatPlain (reducedQueryHead T)"
  by (simp add: reducedQueryHead_def formatPlain_append) (simp add: formatPlain_def)

lemma reduced_tail_plain: "formatPlain reducedQueryTail"
  by (simp add: reducedQueryTail_def formatPlain_def)

lemma filterExpression_text:
  "filterExpression raw =
     filterText (showProp raw ''year'') (showProp raw ''month'') (showProp raw ''day'')
       (showProp raw ''hour'') (showProp raw ''minute'')"
  by (simp add: filterExpression_def filterText_def)

lemma handler_depends:
  assumes "\<forall>n\<in>set partitionNames. getProp (extractPartition k1) n = getProp (extractPartition k2) n"
  shows "tripReduction_handler T k1 = tripReduction_handler T k2"
proof -
  have sp: "showProp (extractPartition k1) n = showProp (extractPartition k2) n"
    if "n \<in> set partitionNames" for n
    using assms that by (simp add: showProp_def)
  have "filterExpression (extractPartition k1) = filterExpression (extractPartition k2)"
    unfolding filterExpression_text by (simp add: sp partitionNames_def)
  moreover have "formattedDate (extractPartition k1) = formattedDate (extractPartition k2)"
    unfolding formattedDate_def by (simp add: sp partitionNames_def)
  ultimately show ?thesis by (simp add: tripReduction_handler_def Let_def)
qed

lemma exampleKey_extract:
  "extractPartition exampleKey =
     [(''year'', ''2023''), (''month'', ''01''), (''day'', ''02''), (''hour'', ''03''), (''minute'', ''04'')]"
  by (simp add: exampleKey_def extractPartition_def keyParam_def setProp_def rawStateMachineInput0_def)

lemma exampleKey2_extract:
  "extractPartition ''year=2023/month=01/day=02/hour=03/minute=04/part-0002'' =
     [(''year'', ''2023''), (''month'', ''01''), (''day'', ''02''), (''hour'', ''03''), (''minute'', ''04'')]"
  by (simp add: extractPartition_def keyParam_def setProp_def rawStateMachineInput0_def)


section \<open>Partition key extraction\<close>

text \<open>
  C6 (as amended). For every storage key and every property name, the extracted
  object holds under that name the value of the last \<open>/\<close>-separated segment that binds
  the name: the segment contains \<open>=\<close>, the name is its text before the first \<open>=\<close>, and
  the value is its text between the first \<open>=\<close> and the next \<open>=\<close> (or the end of the
  segment). When no segment binds the name, and always for the name \<open>__proto__\<close>, the
  property is as the handler initialised it: the empty string for \<open>year\<close>, \<open>month\<close>,
  \<open>day\<close>, \<open>hour\<close> and \<open>minute\<close>, absent for any other name. A segment \<open>n=v\<close> in which
  neither \<open>n\<close> nor \<open>v\<close> contains \<open>=\<close> binds \<open>n\<close> to \<open>v\<close>, and a segment without \<open>=\<close> binds
  nothing, wherever it stands among the others. Extraction is a total function: it
  raises on no key.
\<close>

theorem partition_extraction:
  "getProp (extractPartition objectKey) name =
     (if bindingsOf name (splitOn CHR ''/'' objectKey) = []
      then getProp rawStateMachineInput0 name
      else Some (segValue (last (bindingsOf name (splitOn CHR ''/'' objectKey)))))
   \<and> (CHR ''='' \<notin> set n \<and> CHR ''='' \<notin> set v \<longrightarrow>
        isBinding (n @ ''='' @ v) \<and> segName (n @ ''='' @ v) = n \<and> segValue (n @ ''='' @ v) = v)
   \<and> (CHR ''='' \<notin> set s \<longrightarrow> bindingsOf name (xs @ s # ys) = bindingsOf name (xs @ ys))
   \<and> getProp rawStateMachineInput0 name =
        (if name \<in> {''year'', ''month'', ''day'', ''hour'', ''minute''} then Some [] else None)"
proof -
  have a: "getProp (extractPartition objectKey) name =
     (if bindingsOf name (splitOn CHR ''/'' objectKey) = []
      then getProp rawStateMachineInput0 name
      else Some (segValue (last (bindingsOf name (splitOn CHR ''/'' objectKey)))))"
    unfolding extractPartition_def by (rule extract_segs)
  have b: "isBinding (n @ ''='' @ v) \<and> segName (n @ ''='' @ v) = n \<and> segValue (n @ ''='' @ v) = v"
    if "CHR ''='' \<notin> set n" "CHR ''='' \<notin> set v"
  proof -
    have "takeWhile (\<lambda>x. x \<noteq> CHR ''='') (n @ ''='' @ v) = n"
      using that(1) by (induction n) auto
    moreover have "dropWhile (\<lambda>x. x \<noteq> CHR ''='') (n @ ''='' @ v) = ''='' @ v"
      using that(1) by (induction n) auto
    ultimately show ?thesis
      using that(2) by (simp add: isBinding_def segName_def segValue_def takeWhile_all)
  qed
  have c: "bindingsOf name (xs @ s # ys) = bindingsOf name (xs @ ys)" if "CHR ''='' \<notin> set s"
    using that by (simp add: bindingsOf_def isBinding_def)
  have d: "getProp rawStateMachineInput0 name =
        (if name \<in> {''year'', ''month'', ''day'', ''hour'', ''minute''} then Some [] else None)"
    by (simp add: getProp_def rawStateMachineInput0_def)
  from a b c d show ?thesis by blast
qed

theorem partition_extraction_witness:
  "CHR ''='' \<notin> set ''month'' \<and> CHR ''='' \<notin> set ''01'' \<and> CHR ''='' \<notin> set ''part-0001''
   \<and> getProp (extractPartition ''year=2023/month=01/part-0001'') ''month'' = Some ''01''
   \<and> segValue (''month'' @ ''='' @ ''01'') = ''01''
   \<and> bindingsOf ''month'' ([''year=2023'', ''month=01''] @ ''part-0001'' # [])
       = bindingsOf ''month'' ([''year=2023'', ''month=01''] @ [])"
  using partition_extraction [of "''year=2023/month=01/part-0001''" "''month''" "''month''" "''01''"
      "''part-0001''" "[''year=2023'', ''month=01'']" "[]"]
  by (simp add: bindingsOf_def isBinding_def segName_def segValue_def)

text \<open>
  The claim as worded fails on two kinds of segment: in \<open>k=v=w\<close> the value stored for
  \<open>k\<close> is \<open>v\<close>, not the rest of the segment, and the segment \<open>__proto__=1\<close> creates no
  entry.
\<close>

theorem partition_extraction_counterexample:
  "getProp (extractPartition ''k=v=w'') ''k'' = Some ''v''
   \<and> getProp (extractPartition ''k=v=w'') ''k'' \<noteq> Some ''v=w''
   \<and> getProp (extractPartition ''__proto__=1'') ''__proto__'' = None"
  by (simp add: extractPartition_def keyParam_def setProp_def getProp_def rawStateMachineInput0_def)

text \<open>The key of the normal-flow scenario.\<close>

lemma scenario_key_extraction:
  "extractPartition ''raw/year=2023/month=01/day=02/hour=03/minute=04/part-0001'' =
     [(''year'', ''2023''), (''month'', ''01''), (''day'', ''02''), (''hour'', ''03''), (''minute'', ''04'')]"
  by (simp add: extractPartition_def keyParam_def setProp_def rawStateMachineInput0_def)

lemma abc_key_extraction:
  "extractPartition ''a=1/b=2/c=3'' =
     rawStateMachineInput0 @ [(''a'', ''1''), (''b'', ''2''), (''c'', ''3'')]"
  by (simp add: extractPartition_def keyParam_def setProp_def rawStateMachineInput0_def)

section \<open>Query templates\<close>

text \<open>
  C7. The output of the template engine is a function of the table name and of the
  five partition values extracted from the notification key, and of nothing else: two
  keys with the same partition values, and so two runs on the same key, give the same
  two queries, the same filter expression and the same formatted date. The filter
  expression is \<open>a.year = 'Y' and a.month = 'M' and a.day = 'D' and a.hour = 'H' and
  a.minute = 'Min'\<close> for the extracted values. For a table name without braces and
  backslashes, each template is a text around one placeholder \<open>{}\<close>, and its rendering
  by \<open>States.Format\<close> is that text with the placeholder replaced by the filter
  expression: both rendered queries embed the same filter.
\<close>

theorem query_templates:
  "((\<forall>n\<in>set partitionNames. getProp (extractPartition k1) n = getProp (extractPartition k2) n)
      \<longrightarrow> tripReduction_handler T k1 = tripReduction_handler T k2)
   \<and> QueryFilterExpression (tripReduction_handler T objectKey) =
       filterText (showProp (extractPartition objectKey) ''year'')
                  (showProp (extractPartition objectKey) ''month'')
                  (showProp (extractPartition objectKey) ''day'')
                  (showProp (extractPartition objectKey) ''hour'')
                  (showProp (extractPartition objectKey) ''minute'')
   \<and> (formatPlain T \<longrightarrow>
        FinishedTripsSummaryQuery (tripReduction_handler T objectKey) = summaryQueryHead T @ ''{}'' @ '';''
        \<and> findFinishedTripsTask_queryString (tripReduction_handler T objectKey) =
            Some (summaryQueryHead T @ QueryFilterExpression (tripReduction_handler T objectKey) @ '';'')
        \<and> ReducedTripsQuery (tripReduction_handler T objectKey) = reducedQueryHead T @ ''{}'' @ reducedQueryTail
        \<and> createTripsFileTask_queryString (tripReduction_handler T objectKey) =
            Some (reducedQueryHead T @ QueryFilterExpression (tripReduction_handler T objectKey)
                    @ reducedQueryTail))"
proof -
  have a: "QueryFilterExpression (tripReduction_handler T objectKey) =
       filterText (showProp (extractPartition objectKey) ''year'')
                  (showProp (extractPartition objectKey) ''month'')
                  (showProp (extractPartition objectKey) ''day'')
                  (showProp (extractPartition objectKey) ''hour'')
                  (showProp (extractPartition objectKey) ''minute'')"
    by (simp add: tripReduction_handler_def Let_def filterExpression_text)
  have b: "FinishedTripsSummaryQuery (tripReduction_handler T objectKey) = summaryQueryHead T @ ''{}'' @ '';''"
    by (simp only: tripReduction_handler_def Let_def StateMachineInput.simps summary_template_split)
  have c: "ReducedTripsQuery (tripReduction_handler T objectKey) = reducedQueryHead T @ ''{}'' @ reducedQueryTail"
    by (simp only: tripReduction_handler_def Let_def StateMachineInput.simps reduced_template_split)
  have d: "findFinishedTripsTask_queryString (tripReduction_handler T objectKey) =
            Some (summaryQueryHead T @ QueryFilterExpression (tripReduction_handler T objectKey) @ '';'')"
    if "formatPlain T"
    unfolding findFinishedTripsTask_queryString_def b
    by (rule format_one_placeholder[OF summary_head_plain[OF that]]) (simp add: formatPlain_def)
  have e: "createTripsFileTask_queryString (tripReduction_handler T objectKey) =
            Some (reducedQueryHead T @ QueryFilterExpression (tripReduction_handler T objectKey)
                    @ reducedQueryTail)"
    if "formatPlain T"
    unfolding createTripsFileTask_queryString_def c
    by (rule format_one_placeholder[OF reduced_head_plain[OF that] reduced_tail_plain])
  from a b c d e handler_depends[of k1 k2 T] show ?thesis by blast
qed

theorem query_templates_witness:
  "formatPlain ''aggregated_trips''
   \<and> extractPartition exampleKey =
       extractPartition ''year=2023/month=01/day=02/hour=03/minute=04/part-0002''
   \<and> tripReduction_handler ''aggregated_trips'' exampleKey =
       tripReduction_handler ''aggregated_trips'' ''year=2023/month=01/day=02/hour=03/minute=04/part-0002''
   \<and> QueryFilterExpression (tripReduction_handler ''aggregated_trips'' exampleKey) =
       filterText ''2023'' ''01'' ''02'' ''03'' ''04''
   \<and> findFinishedTripsTask_queryString (tripReduction_handler ''aggregated_trips'' exampleKey) =
       Some (summaryQueryHead ''aggregated_trips'' @ filterText ''2023'' ''01'' ''02'' ''03'' ''04'' @ '';'')
   \<and> createTripsFileTask_queryString (tripReduction_handler ''aggregated_trips'' exampleKey) =
       Some (reducedQueryHead ''aggregated_trips'' @ filterText ''2023'' ''01'' ''02'' ''03'' ''04''
               @ reducedQueryTail)"
proof -
  let ?k2 = "''year=2023/month=01/day=02/hour=03/minute=04/part-0002''"
  have p: "formatPlain ''aggregated_trips''" by (simp add: formatPlain_def)
  have e: "extractPartition exampleKey = extractPartition ?k2"
    by (simp only: exampleKey_extract exampleKey2_extract)
  have s: "showProp (extractPartition exampleKey) ''year'' = ''2023''"
      "showProp (extractPartition exampleKey) ''month'' = ''01''"
      "showProp (extractPartition exampleKey) ''day'' = ''02''"
      "showProp (extractPartition exampleKey) ''hour'' = ''03''"
      "showProp (extractPartition exampleKey) ''minute'' = ''04''"
    by (simp_all add: exampleKey_extract showProp_def getProp_def)
  note qt = query_templates [of exampleKey ?k2 "''aggregated_trips''" exampleKey]
  have q: "\<forall>n\<in>set partitionNames. getProp (extractPartition exampleKey) n = getProp (extractPartition ?k2) n"
    by (simp only: exampleKey_extract exampleKey2_extract) simp
  have c1: "tripReduction_handler ''aggregated_trips'' exampleKey = tripReduction_handler ''aggregated_trips'' ?k2"
    using qt q by blast
  have "QueryFilterExpression (tripReduction_handler ''aggregated_trips'' exampleKey) =
       filterText (showProp (extractPartition exampleKey) ''year'')
                  (showProp (extractPartition exampleKey) ''month'')
                  (showProp (extractPartition exampleKey) ''day'')
                  (showProp (extractPartition exampleKey) ''hour'')
                  (showProp (extractPartition exampleKey) ''minute'')"
    using qt by blast
  then have c2: "QueryFilterExpression (tripReduction_handler ''aggregated_trips'' exampleKey) =
       filterText ''2023'' ''01'' ''02'' ''03'' ''04''"
    by (simp only: s)
  have c3: "findFinishedTripsTask_queryString (tripReduction_handler ''aggregated_trips'' exampleKey) =
       Some (summaryQueryHead ''aggregated_trips'' @ filterText ''2023'' ''01'' ''02'' ''03'' ''04'' @ '';'')"
    using qt p unfolding c2 by blast
  have c4: "createTripsFileTask_queryString (tripReduction_handler ''aggregated_trips'' exampleKey) =
       Some (reducedQueryHead ''aggregated_trips'' @ filterText ''2023'' ''01'' ''02'' ''03'' ''04''
               @ reducedQueryTail)"
    using qt p unfolding c2 by blast
  from p e c1 c2 c3 c4 show ?thesis by blast
qed

section \<open>The trip summary query\<close>


text \<open>
  An example: trip \<open>t1\<close> started in minute 00, 239.75 seconds before it finished, and
  has three events in three partitions; trip \<open>t2\<close> has no start event. The filter
  selects minute 04 only.
\<close>

lemma example_summary_rows:
  "finishedTripsSummary exampleTs (partitionFilter (extractPartition exampleKey)) exampleTable =
     [\<lparr> vehicle_id = Some ''v1'', trip_id = Some ''t1'', start_date = Some ''2023-01-02T03:00:00.250Z'',
        end_date = Some ''2023-01-02T03:04:00.000Z'', duration = Some 239, event_count = 3 \<rparr>,
      \<lparr> vehicle_id = Some ''v1'', trip_id = Some ''t2'', start_date = None,
        end_date = Some ''2023-01-02T03:04:00.000Z'', duration = None, event_count = 1 \<rparr>]"
  by (simp add: finishedTripsSummary_def exampleKey_extract partitionFilter_def showProp_def getProp_def
        exampleTable_def exampleEvent_def summaryRowsOf_def engineStarts_def sql_eq_def summaryRow_def
        eventCount_def date_diff_second_def exampleTs_def)

section \<open>Writing the summaries\<close>

text \<open>
  C9. The loop cuts the parsed rows into consecutive chunks: concatenated in order
  they give the rows back, every chunk has between 1 and 25 rows, every chunk but
  the last has exactly 25, and there are \<open>\<lceil>n / 25\<rceil>\<close> chunks for \<open>n\<close> rows. The writer
  issues one bulk write per chunk, in order, each carrying the rows of its chunk, and
  no other call; for no rows it issues none.
\<close>

theorem summary_writer_chunks:
  "concat (chunkLoop 0 rows []) = rows
   \<and> list_all (\<lambda>c. c \<noteq> [] \<and> length c \<le> 25) (chunkLoop 0 rows [])
   \<and> list_all (\<lambda>c. length c = 25) (butlast (chunkLoop 0 rows []))
   \<and> length (chunkLoop 0 rows []) = (length rows + 24) div 25
   \<and> snd (snd (storeTripSummaries svc st rows)) = map DdbBatchWrite (chunkLoop 0 rows [])
   \<and> snd (snd (storeTripSummaries svc st [])) = []"
proof -
  have e: "chunkLoop 0 ([]::item list) [] = []" by (subst chunkLoop.simps) simp
  show ?thesis
    using chunkLoop_concat[of 0 rows "[]"] chunkLoop_all[of "[]" 0 rows]
      chunkLoop_full[of "[]" 0 rows] chunkLoop_length[of 0 rows "[]"]
    by (simp add: storeTripSummaries_def writeChunks_trace e)
qed

text \<open>
  C1 (as amended). Every write of the Summary Writer puts a whole row. After a run
  in which all writes succeed, every row of the result file is stored under its
  \<open>trip_id\<close> as one of the rows just written, which are the columns of the file plus
  \<open>RecordsFile\<close>: the stored row has no \<open>AggregationExecuted\<close> attribute, so the flag
  reads false whatever it was before. The Object Store is not touched.
\<close>

theorem summary_writer_overwrites:
  assumes "storeTripSummaries svc st (map (summaryItem tripFile) parsed) = (Inr (), st', tr)"
      and "row \<in> set parsed"
      and "list_all (\<lambda>r. map fst r = summaryColumns) parsed"
  shows "\<exists>k j. map_of row ''trip_id'' = Some k
           \<and> summaries st' k = Some j
           \<and> j \<in> set (map (summaryItem tripFile) parsed)
           \<and> map_of j ''trip_id'' = Some (JStr k)
           \<and> map_of j ''AggregationExecuted'' = None
           \<and> \<not> aggregationExecuted j
           \<and> objects st' = objects st"
proof -
  let ?rows = "map (summaryItem tripFile) parsed"
  let ?cs = "chunkLoop 0 ?rows []"
  have cc: "concat ?cs = ?rows" using chunkLoop_concat[of 0 ?rows "[]"] by simp
  have sub: "\<forall>c\<in>set ?cs. set c \<subseteq> set ?rows"
  proof
    fix c assume "c \<in> set ?cs"
    then have "set c \<subseteq> set (concat ?cs)" by auto
    then show "set c \<subseteq> set ?rows" by (simp only: cc)
  qed
  have ok: "fst (writeChunks svc st ?cs) = Inr ()" and st': "st' = fst (snd (writeChunks svc st ?cs))"
    using assms(1) by (simp_all add: storeTripSummaries_def)
  have mem: "summaryItem tripFile row \<in> set (concat ?cs)"
    using assms(2) by (simp only: cc) simp
  from writeChunks_new[OF ok mem sub]
  obtain k j where k: "itemKey (summaryItem tripFile row) = Some k"
    and j: "j \<in> set ?rows" "itemKey j = Some k" "summaries st' k = Some j"
    unfolding writtenBy_def st' by blast
  from j(1) obtain r where r: "r \<in> set parsed" "j = summaryItem tripFile r" by auto
  have cols: "map fst r = summaryColumns" using assms(3) r(1) by (simp add: list_all_iff)
  have flag: "\<not> aggregationExecuted j" using cols r(2) by (simp add: summaryItem_flag)
  have "''AggregationExecuted'' \<notin> set (map fst r)" by (simp add: cols summaryColumns_def)
  then have "map_of r ''AggregationExecuted'' = None" by (simp add: map_of_eq_None_iff)
  then have absent: "map_of j ''AggregationExecuted'' = None" by (simp add: r(2) summaryItem_attr)
  have rk: "map_of row ''trip_id'' = Some k"
    using k by (simp add: summaryItem_key split: option.splits if_splits)
  have jk: "map_of j ''trip_id'' = Some (JStr k)"
    using j(2) by (simp add: r(2) summaryItem_key summaryItem_attr split: option.splits if_splits)
  have o: "objects st' = objects st"
    using storeTripSummaries_cases[of svc st ?rows k] assms(1) by simp
  from rk j(3) j(1) jk absent flag o show ?thesis by blast
qed

theorem summary_writer_overwrites_witness:
  "storeTripSummaries exampleServices warmStore (map (summaryItem (Some exampleRecordsFile)) [exampleRow]) =
     (Inr (), warmStore\<lparr>summaries := [''t1'' \<mapsto> exampleSummary]\<rparr>, [DdbBatchWrite [exampleSummary]])
   \<and> exampleRow \<in> set [exampleRow]
   \<and> list_all (\<lambda>r. map fst r = summaryColumns) [exampleRow]
   \<and> (\<exists>k j. map_of exampleRow ''trip_id'' = Some k
           \<and> summaries (warmStore\<lparr>summaries := [''t1'' \<mapsto> exampleSummary]\<rparr>) k = Some j
           \<and> map_of j ''AggregationExecuted'' = None
           \<and> \<not> aggregationExecuted j)"
proof -
  have h2: "exampleRow \<in> set [exampleRow]" by simp
  have h3: "list_all (\<lambda>r. map fst r = summaryColumns) [exampleRow]"
    by (simp add: exampleRow_def summaryColumns_def)
  from summary_writer_overwrites[OF example_rewrite h2 h3] example_rewrite h2 h3
  show ?thesis by blast
qed

text \<open>
  The claim as worded fails: the summary of trip \<open>t1\<close> has a true flag, the writer
  processes a result file with a row for \<open>t1\<close>, and afterwards the flag reads false.
\<close>

theorem summary_writer_resets_flag_counterexample:
  "summaries warmStore ''t1'' = Some (AList.update ''AggregationExecuted'' (JBool True) exampleSummary)
   \<and> aggregationExecuted (AList.update ''AggregationExecuted'' (JBool True) exampleSummary)
   \<and> fst (storeTripSummaries exampleServices warmStore [summaryItem (Some exampleRecordsFile) exampleRow]) = Inr ()
   \<and> summaries (fst (snd (storeTripSummaries exampleServices warmStore
                              [summaryItem (Some exampleRecordsFile) exampleRow]))) ''t1''
       = Some exampleSummary
   \<and> \<not> aggregationExecuted exampleSummary"
proof -
  have a: "summaries warmStore ''t1'' = Some (AList.update ''AggregationExecuted'' (JBool True) exampleSummary)"
    by (simp add: warmStore_def)
  have b: "aggregationExecuted (AList.update ''AggregationExecuted'' (JBool True) exampleSummary)"
    by (simp add: aggregationExecuted_def update_conv')
  have c: "\<not> aggregationExecuted exampleSummary"
    by (simp add: exampleSummary_def summaryItem_flag exampleRow_def summaryColumns_def)
  have d: "storeTripSummaries exampleServices warmStore [summaryItem (Some exampleRecordsFile) exampleRow] =
     (Inr (), warmStore\<lparr>summaries := [''t1'' \<mapsto> exampleSummary]\<rparr>, [DdbBatchWrite [exampleSummary]])"
    using example_rewrite by simp
  show ?thesis by (simp add: a b c d)
qed

section \<open>Reading a trip\<close>



text \<open>
  C4. When the stored summary of the trip has a true \<open>AggregationExecuted\<close>, the
  handler makes exactly two calls, the lookup in the Summary Store and a get of the
  object \<open>trips/<tripId>.json\<close> in the bucket of aggregated trips; it makes no
  selective scan, no put and no update, leaves both stores as they are, and returns
  the parsed object (or the error of the get or of the parse).
\<close>

theorem warm_read:
  assumes "summaries st TripId = Some tripSummary"
      and "aggregationExecuted tripSummary"
      and "TripId \<noteq> []"
      and "fault svc (DdbGet [(''trip_id'', JStr TripId)]) = None"
  shows "tripsApi_handler svc TripId st =
           ((case fault svc (S3GetObject (TRIP_RECORDS_BUCKET_NAME svc) (''trips/'' @ TripId @ ''.json'')) of
               Some e \<Rightarrow> Inl e
             | None \<Rightarrow>
                 (case objects st (TRIP_RECORDS_BUCKET_NAME svc, ''trips/'' @ TripId @ ''.json'') of
                    None \<Rightarrow> Inl NoSuchKey
                  | Some body \<Rightarrow>
                      (case JSON_parse body of None \<Rightarrow> Inl SyntaxError | Some v \<Rightarrow> Inr v))),
            st,
            [DdbGet [(''trip_id'', JStr TripId)],
             S3GetObject (TRIP_RECORDS_BUCKET_NAME svc) (''trips/'' @ TripId @ ''.json'')])"
  using assms
  by (simp add: tripsApi_handler_def dynamodb_get_def keyOf_trip_id warmPath_def aggregatedTripKey_def
           s3_getObject_def split: option.splits sum.splits)

lemma exampleBody_parse: "JSON_parse exampleBody = Some (JObj exampleAggregate)"
  by code_simp

theorem warm_read_witness:
  "summaries warmStore ''t1'' = Some (AList.update ''AggregationExecuted'' (JBool True) exampleSummary)
   \<and> aggregationExecuted (AList.update ''AggregationExecuted'' (JBool True) exampleSummary)
   \<and> ''t1'' \<noteq> []
   \<and> fault exampleServices (DdbGet [(''trip_id'', JStr ''t1'')]) = None
   \<and> tripsApi_handler exampleServices ''t1'' warmStore =
       (Inr (JObj exampleAggregate), warmStore,
        [DdbGet [(''trip_id'', JStr ''t1'')], S3GetObject ''aggregated-trips'' ''trips/t1.json''])"
proof -
  have h1: "summaries warmStore ''t1'' = Some (AList.update ''AggregationExecuted'' (JBool True) exampleSummary)"
    by (simp add: warmStore_def)
  have h2: "aggregationExecuted (AList.update ''AggregationExecuted'' (JBool True) exampleSummary)"
    by (simp add: aggregationExecuted_def update_conv')
  have h3: "''t1'' \<noteq> []" by simp
  have h4: "fault exampleServices (DdbGet [(''trip_id'', JStr ''t1'')]) = None"
    by (simp add: exampleServices_def)
  have o: "objects warmStore (''aggregated-trips'', ''trips/t1.json'') = Some exampleBody"
    by (simp add: warmStore_def)
  show ?thesis
    using h1 h2 h3 h4 warm_read [OF h1 h2 h3 h4] o
    by (simp add: exampleServices_def exampleBody_parse)
qed

text \<open>
  C2. The claim fails on the code. On the cold path the update names its row by the
  attribute \<open>TripId\<close>, while the table's partition key, under which the summary was
  fetched, is \<open>trip_id\<close>; the table refuses the request. In the run below the summary
  of trip \<open>t1\<close> is stored and not yet aggregated, no service call is made to fail, the
  object is written, and the handler ends with the validation error of the update:
  the stored summary is unchanged and its flag still reads false.
\<close>

theorem cold_read_update_rejected:
  "tripSummaryTable_partitionKey = ''trip_id''
   \<and> summaries coldStore ''t1'' = Some exampleSummary
   \<and> \<not> aggregationExecuted exampleSummary
   \<and> tripsApi_handler exampleServices ''t1'' coldStore =
       (Inl ValidationException,
        coldStore\<lparr>objects := [(''aggregated-trips'', ''trips/t1.json'') \<mapsto> exampleBody]\<rparr>,
        [DdbGet [(''trip_id'', JStr ''t1'')],
         S3SelectObjectContent ''reduced-trips'' ''records.csv'' (selectExpression ''t1''),
         S3PutObject ''aggregated-trips'' ''trips/t1.json'' exampleBody,
         DdbUpdate [(''TripId'', JStr ''t1'')] ''AggregationExecuted'' (JBool True)])
   \<and> summaries (fst (snd (tripsApi_handler exampleServices ''t1'' coldStore))) ''t1'' = Some exampleSummary"
  using example_cold_run exampleSummary_cold
  by (simp add: tripSummaryTable_partitionKey_def coldStore_def)

text \<open>
  C5. On every run of the handler, an update of the Summary Store is attempted only
  directly after a put of the object \<open>trips/<tripId>.json\<close> that succeeded: the put is
  the call before the update, no update precedes it, and the object is in the bucket
  when the run ends. And the cache-fill invariant, that every summary whose flag
  reads true has its object, holds in every state that runs of the two functions
  reach from a state in which it holds.
\<close>

theorem cache_fill_order:
  "(reachable B st \<longrightarrow> cacheFilled B st)
   \<and> (tripsApi_handler svc TripId st0 = (r, st1, tr) \<and> DdbUpdate k a v \<in> set tr \<longrightarrow>
        (\<exists>pre body.
           tr = pre @ [S3PutObject (TRIP_RECORDS_BUCKET_NAME svc) (aggregatedTripKey TripId) body,
                       DdbUpdate k a v]
           \<and> list_all (\<lambda>c. \<not> isUpdate c) pre
           \<and> fault svc (S3PutObject (TRIP_RECORDS_BUCKET_NAME svc) (aggregatedTripKey TripId) body) = None
           \<and> objects st1 (TRIP_RECORDS_BUCKET_NAME svc, aggregatedTripKey TripId) = Some body))"
  using reachable_cacheFilled handler_order by blast

theorem cache_fill_order_witness:
  "reachable ''aggregated-trips'' (fst (snd (tripsApi_handler exampleServices ''t1'' warmStore)))
   \<and> cacheFilled ''aggregated-trips'' (fst (snd (tripsApi_handler exampleServices ''t1'' warmStore)))
   \<and> DdbUpdate [(''TripId'', JStr ''t1'')] ''AggregationExecuted'' (JBool True)
        \<in> set (snd (snd (tripsApi_handler exampleServices ''t1'' coldStore)))
   \<and> (\<exists>pre body.
         snd (snd (tripsApi_handler exampleServices ''t1'' coldStore)) =
           pre @ [S3PutObject ''aggregated-trips'' ''trips/t1.json'' body,
                  DdbUpdate [(''TripId'', JStr ''t1'')] ''AggregationExecuted'' (JBool True)]
         \<and> list_all (\<lambda>c. \<not> isUpdate c) pre
         \<and> objects (fst (snd (tripsApi_handler exampleServices ''t1'' coldStore)))
              (''aggregated-trips'', ''trips/t1.json'') = Some body)"
proof -
  let ?w = "tripsApi_handler exampleServices ''t1'' warmStore"
  let ?c = "tripsApi_handler exampleServices ''t1'' coldStore"
  let ?u = "DdbUpdate [(''TripId'', JStr ''t1'')] ''AggregationExecuted'' (JBool True)"
  have n: "TRIP_RECORDS_BUCKET_NAME exampleServices = ''aggregated-trips''"
    by (simp add: exampleServices_def)
  have r: "reachable ''aggregated-trips'' (fst (snd ?w))"
    by (rule reachable.after_read[OF reachable.from_filled[OF warmStore_filled] n, of "''t1''" "fst ?w" _ "snd (snd ?w)"]) simp
  have m: "?u \<in> set (snd (snd ?c))" by (simp add: example_cold_run)
  have e: "?c = (fst ?c, fst (snd ?c), snd (snd ?c))" by simp
  from cache_fill_order[of "''aggregated-trips''" "fst (snd ?w)" exampleServices "''t1''" coldStore
      "fst ?c" "fst (snd ?c)" "snd (snd ?c)" "[(''TripId'', JStr ''t1'')]" "''AggregationExecuted''" "JBool True"]
    r m e
  show ?thesis by (auto simp: n aggregatedTripKey_def)
qed

section \<open>Lines of the scan result\<close>

text \<open>
  C10 (as amended). The records collected from a scan result are, in delivery order,
  the values of the lines of its \<open>Records\<close> events that parse as JSON to a truthy
  value; every other line (empty, not JSON, or JSON for \<open>null\<close>, \<open>false\<close>, zero or the
  empty string) is dropped without an error. On the cold path the handler goes on
  with them: once the scan has delivered its events, it puts the summary with
  exactly these records as \<open>Records\<close>.
\<close>

theorem scan_lines_kept:
  "collectRecords [] evs = keptRecords evs
   \<and> (recordsFileOf tripSummary = Inr (b, k)
        \<and> s3_selectObjectContent svc b k (selectExpression TripId) = Inr evs \<longrightarrow>
      S3PutObject (TRIP_RECORDS_BUCKET_NAME svc) (aggregatedTripKey TripId)
          (JSON_stringify svc (JObj (AList.update ''Records'' (JArr (keptRecords evs)) tripSummary)))
        \<in> set (snd (snd (coldPath svc TripId st tripSummary tr))))"
  by (auto simp: collectRecords_kept coldPath_def Let_def split: sum.splits)

theorem scan_lines_kept_witness:
  "recordsFileOf exampleSummary = Inr (''reduced-trips'', ''records.csv'')
   \<and> s3_selectObjectContent exampleServices ''reduced-trips'' ''records.csv'' (selectExpression ''t1'')
       = Inr [RecordsEvent (exampleLine @ nl), EndEvent]
   \<and> keptRecords [RecordsEvent (exampleLine @ nl), EndEvent] = [JObj [(''tripid'', JStr ''t1'')]]
   \<and> S3PutObject ''aggregated-trips'' ''trips/t1.json'' exampleBody
        \<in> set (snd (snd (coldPath exampleServices ''t1'' coldStore exampleSummary [])))"
proof -
  let ?evs = "[RecordsEvent (exampleLine @ nl), EndEvent]"
  have s: "s3_selectObjectContent exampleServices ''reduced-trips'' ''records.csv'' (selectExpression ''t1'')
             = Inr ?evs"
    by (simp add: s3_selectObjectContent_def exampleServices_def)
  have c: "collectRecords [] ?evs = [JObj [(''tripid'', JStr ''t1'')]]"
    by (simp add: example_parsed)
  have b: "JSON_stringify exampleServices (JObj (AList.update ''Records'' (JArr [JObj [(''tripid'', JStr ''t1'')]]) exampleSummary))
             = exampleBody"
    by (simp add: exampleServices_def exampleBody_def exampleAggregate_def del: showJson.simps)
  have n: "TRIP_RECORDS_BUCKET_NAME exampleServices = ''aggregated-trips''"
    by (simp add: exampleServices_def)
  from scan_lines_kept [of ?evs exampleSummary "''reduced-trips''" "''records.csv''" exampleServices
      "''t1''" coldStore "[]"] exampleSummary_file s c
  show ?thesis by (simp add: b n aggregatedTripKey_def del: showJson.simps)
qed

text \<open>
  The claim as worded fails on a line that parses to a falsy value: the line \<open>null\<close>
  parses successfully and is not among the collected records.
\<close>

theorem scan_lines_counterexample:
  "successfullyParsed [RecordsEvent ''null''] = [JNull]
   \<and> collectRecords [] [RecordsEvent ''null''] = []
   \<and> collectRecords [] [RecordsEvent ''null''] \<noteq> successfullyParsed [RecordsEvent ''null'']"
  by (simp add: successfullyParsed_def payloadLines_def recordPayloads_def
        parsedRecords_def JSON_parse_null)


end
